theory Spec2Isabelle
  imports Main "HOL-Library.Sublist" "HOL-Library.Multiset" "HOL-Library.AList"
begin

section \<open>weeports: weekly GitLab activity reports\<close>

text \<open>
  The repository holds several snapshots of one Go program. Two of them are modelled:
  \<^item> \<^verbatim>\<open>src/weeports.go\<close>, the named file (no merge-request lookup, one week of history);
  \<^item> the last program of \<^verbatim>\<open>src/unnamed/part_001\<close>, the newest snapshot (merge-request
    lookup, a configurable number of weeks).
  A definition whose text differs between the two carries the suffix \<open>_weeports\<close> for
  the first one, unless the source already gives the two different names.
\<close>

subsection \<open>Data of the GitLab client library, as far as the program reads it\<close>

text \<open>\<^verbatim>\<open>gitlab.ISOTime\<close> and the calendar part of \<^verbatim>\<open>time.Time\<close>.\<close>

record Time =
  Year :: int
  Month :: nat
  Day :: nat

record IssueAssignee =
  AssigneeID :: int

text \<open>
  \<^verbatim>\<open>gitlab.Issue\<close>. \<^verbatim>\<open>DueDate\<close> and \<^verbatim>\<open>Assignee\<close> are pointers in Go; \<open>None\<close> is
  the nil pointer.
\<close>

record Issue =
  IssueID :: int
  ProjectID :: int
  MovedToID :: int
  Title :: string
  WebURL :: string
  DueDate :: "Time option"
  Assignee :: "IssueAssignee option"

record MergeRequest =
  MergeRequestID :: int
  MRTitle :: string
  SourceBranch :: string
  MRWebURL :: string

record Project =
  ID :: int
  Name :: string

record Config =
  GitlabUrl :: string
  GitlabToken :: string
  GitlabUsername :: string
  SMTPUsername :: string
  SMTPPassword :: string
  SMTPHost :: string
  SMTPPort :: string
  RecipientEmail :: string

text \<open>
  What one call of the client returns: the decoded items, the status line and code of
  the response, and whether \<^verbatim>\<open>err != nil\<close>.
\<close>

record 'a Reply =
  Items :: "'a list"
  Status :: string
  StatusCode :: int
  Err :: bool

text \<open>
  The search options the program fills in. \<^verbatim>\<open>UpdatedAfter\<close> is kept as the number of
  days added to \<^verbatim>\<open>time.Now()\<close>.
\<close>

record ListIssuesOptions =
  OptScope :: "string option"
  OptAssigneeUsername :: string
  OptUpdatedAfter :: "int option"
  OptDueDate :: "string option"
  OptState :: string

record ListMergeRequestsOptions =
  OptAuthorID :: int
  OptMRState :: string

text \<open>The remote service: an answer for every query the program can send.\<close>

record Upstream =
  ListIssues :: "ListIssuesOptions \<Rightarrow> Issue Reply"
  ListProjects :: "Project Reply"
  ListMergeRequests :: "ListMergeRequestsOptions \<Rightarrow> MergeRequest Reply"

text \<open>
  How a run can end early: \<^verbatim>\<open>log.Fatal\<close> after a failed query, or the runtime panic of
  a nil pointer dereference.
\<close>

datatype error = Fatal | NilPointerDereference

definition CR :: char where
  "CR = CHR 0x0D"

definition LF :: char where
  "LF = CHR 0x0A"

definition CRLF :: string where
  "CRLF = [CR, LF]"

subsection \<open>slugify\<close>

text \<open>
  The character class \<^verbatim>\<open>[^a-zA-Z0-9]\<close>. A Go string is a byte sequence; every byte of a
  multi-byte or invalid UTF-8 sequence is at least 0x80, so the class matches each of
  them and the replacement removes exactly the bytes accepted here.
\<close>

definition nonAlphanumeric :: "char \<Rightarrow> bool" where
  "nonAlphanumeric c =
     (let n = (of_char c :: nat)
      in \<not> ((97 \<le> n \<and> n \<le> 122) \<or> (65 \<le> n \<and> n \<le> 90) \<or> (48 \<le> n \<and> n \<le> 57)))"

text \<open>\<^verbatim>\<open>regex.ReplaceAllString(inputString, "")\<close>\<close>

definition ReplaceAllString :: "string \<Rightarrow> string" where
  "ReplaceAllString inputString = filter (\<lambda>c. \<not> nonAlphanumeric c) inputString"

text \<open>
  \<^verbatim>\<open>strings.ToLower\<close> on the bytes below 0x80: an upper-case letter moves by
  \<^verbatim>\<open>'a' - 'A'\<close>, every other ASCII byte stays. (The bytes from 0x80 on, which Go maps
  by Unicode rules, never reach it in \<open>slugify\<close>; they are left as they are.)
\<close>

definition ToLower_byte :: "char \<Rightarrow> char" where
  "ToLower_byte c =
     (let n = (of_char c :: nat)
      in if 65 \<le> n \<and> n \<le> 90 then char_of (n + 32) else c)"

definition ToLower :: "string \<Rightarrow> string" where
  "ToLower s = map ToLower_byte s"

definition slugify :: "string \<Rightarrow> string" where
  "slugify inputString = ToLower (ReplaceAllString inputString)"

subsection \<open>Go maps and slices\<close>

text \<open>
  A Go map is kept as an association list with distinct keys. \<open>map_index\<close> is the
  read \<^verbatim>\<open>m[k]\<close>, which yields the zero value of the element type for a missing key;
  \<open>AList.update\<close> is the write \<^verbatim>\<open>m[k] = v\<close>; \<open>length\<close> is \<^verbatim>\<open>len(m)\<close>.
\<close>

definition map_index :: "'v \<Rightarrow> ('k \<times> 'v) list \<Rightarrow> 'k \<Rightarrow> 'v" where
  "map_index zero m k = (case map_of m k of None \<Rightarrow> zero | Some v \<Rightarrow> v)"

text \<open>
  \<^verbatim>\<open>for k, v := range m\<close> visits every key once, in an order the runtime chooses anew
  for each loop. The functions that range over a map take that order as the argument
  \<open>visit\<close>; \<open>range_order m visit\<close> says that \<open>visit\<close> is such an order for \<open>m\<close>.
\<close>

definition range_order :: "('k \<times> 'v) list \<Rightarrow> 'k list \<Rightarrow> bool" where
  "range_order m visit = (distinct visit \<and> set visit = set (map fst m))"

text \<open>
  \<^verbatim>\<open>slices.Delete(s, i, j)\<close> returns \<^verbatim>\<open>append(s[:i], s[j:]...)\<close>. Both callers pass
  \<open>i < length s\<close> and \<open>j \<le> length s\<close>, where Go does not panic.
\<close>

definition slices_Delete :: "'a list \<Rightarrow> nat \<Rightarrow> nat \<Rightarrow> 'a list" where
  "slices_Delete s i j = take i s @ drop j s"

subsection \<open>Formatting numbers and dates\<close>

definition digit :: "nat \<Rightarrow> char" where
  "digit d = char_of (48 + d)"

text \<open>The decimal digits of an unsigned number, most significant first.\<close>

function utoa :: "nat \<Rightarrow> string" where
  "utoa u = (if u < 10 then [digit u] else utoa (u div 10) @ [digit (u mod 10)])"
  by pat_completeness auto
termination
  by (relation "measure id") auto

declare utoa.simps [simp del]

text \<open>\<^verbatim>\<open>fmt.Sprintf("%d", x)\<close>\<close>

definition itoa :: "int \<Rightarrow> string" where
  "itoa x = (if x < 0 then CHR ''-'' # utoa (nat (- x)) else utoa (nat x))"

text \<open>
  \<^verbatim>\<open>appendInt\<close> of package \<^verbatim>\<open>time\<close>: a sign for a negative number, then the digits
  padded with zeros to \<open>width\<close>.
\<close>

definition appendInt :: "int \<Rightarrow> nat \<Rightarrow> string" where
  "appendInt x width =
     (let u = utoa (nat \<bar>x\<bar>)
      in (if x < 0 then [CHR ''-''] else []) @ replicate (width - length u) CHR ''0'' @ u)"

text \<open>
  \<^verbatim>\<open>Time.Format(layout)\<close>, for layouts made of the reference elements \<^verbatim>\<open>2006\<close> (the
  year, four digits), \<^verbatim>\<open>01\<close> (the month, two digits), \<^verbatim>\<open>02\<close> (the day of the month,
  two digits) and literal text; the program uses no other element.
\<close>

function Format :: "Time \<Rightarrow> string \<Rightarrow> string" where
  "Format t layout =
     (if layout = [] then []
      else if take 4 layout = ''2006'' then appendInt (Year t) 4 @ Format t (drop 4 layout)
      else if take 2 layout = ''01'' then appendInt (int (Month t)) 2 @ Format t (drop 2 layout)
      else if take 2 layout = ''02'' then appendInt (int (Day t)) 2 @ Format t (drop 2 layout)
      else hd layout # Format t (tl layout))"
  by pat_completeness auto
termination
  by (relation "measure (\<lambda>(t, layout). length layout)") auto

declare Format.simps [simp del]

text \<open>\<^verbatim>\<open>ISOTime.String()\<close> of the client library formats with \<^verbatim>\<open>"2006-01-02"\<close>.\<close>

definition ISOTime_String :: "Time \<Rightarrow> string" where
  "ISOTime_String t = Format t ''2006-01-02''"

subsection \<open>Fetching issues\<close>

text \<open>
  \<^verbatim>\<open>src/weeports.go\<close>, lines 171 to 177: the loop that is meant to drop moved issues,
  with \<^verbatim>\<open>slices.Delete(issues, i, i)\<close>.
\<close>

function fetchClosedLastWeekIssues_loop :: "nat \<Rightarrow> Issue list \<Rightarrow> Issue list" where
  "fetchClosedLastWeekIssues_loop i issues =
     (if i < length issues then
        (if MovedToID (issues ! i) \<noteq> 0
         then fetchClosedLastWeekIssues_loop (i + 1) (slices_Delete issues i i)
         else fetchClosedLastWeekIssues_loop (i + 1) issues)
      else issues)"
  by pat_completeness auto
termination
  by (relation "measure (\<lambda>(i, issues). length issues - i)") (auto simp: slices_Delete_def)

declare fetchClosedLastWeekIssues_loop.simps [simp del]

definition fetchClosedLastWeekIssues :: "Upstream \<Rightarrow> Config \<Rightarrow> error + Issue list" where
  "fetchClosedLastWeekIssues up config =
     (let searchOpts = \<lparr>OptScope = None, OptAssigneeUsername = GitlabUsername config,
            OptUpdatedAfter = Some (- 7), OptDueDate = None, OptState = ''closed''\<rparr>;
          reply = ListIssues up searchOpts
      in if Err reply \<or> Status reply \<noteq> ''200 OK'' then Inl Fatal
         else Inr (fetchClosedLastWeekIssues_loop 0 (Items reply)))"

text \<open>
  \<^verbatim>\<open>src/unnamed/part_001\<close>, lines 248 to 254: the same loop with
  \<^verbatim>\<open>slices.Delete(issues, i, i+1)\<close>.
\<close>

function fetchClosedLastWeeksIssues_loop :: "nat \<Rightarrow> Issue list \<Rightarrow> Issue list" where
  "fetchClosedLastWeeksIssues_loop i issues =
     (if i < length issues then
        (if MovedToID (issues ! i) \<noteq> 0
         then fetchClosedLastWeeksIssues_loop (i + 1) (slices_Delete issues i (i + 1))
         else fetchClosedLastWeeksIssues_loop (i + 1) issues)
      else issues)"
  by pat_completeness auto
termination
  by (relation "measure (\<lambda>(i, issues). length issues - i)") (auto simp: slices_Delete_def)

declare fetchClosedLastWeeksIssues_loop.simps [simp del]

text \<open>
  \<open>weeks\<close> is a Go \<^verbatim>\<open>int\<close>, 64 bits wide on the platforms the program is built for.
  Its values are kept as \<open>int\<close>, and the product \<^verbatim>\<open>weeks * -7\<close> wraps around as the
  two's complement product does.
\<close>

definition int64_wrap :: "int \<Rightarrow> int" where
  "int64_wrap x = (x + 2 ^ 63) mod 2 ^ 64 - 2 ^ 63"

definition fetchClosedLastWeeksIssues :: "Upstream \<Rightarrow> Config \<Rightarrow> int \<Rightarrow> error + Issue list" where
  "fetchClosedLastWeeksIssues up config weeks =
     (let days = int64_wrap (weeks * (- 7));
          searchOpts = \<lparr>OptScope = Some ''assigned_to_me'',
            OptAssigneeUsername = GitlabUsername config,
            OptUpdatedAfter = Some days, OptDueDate = None, OptState = ''closed''\<rparr>;
          reply = ListIssues up searchOpts
      in if Err reply \<or> Status reply \<noteq> ''200 OK'' then Inl Fatal
         else Inr (fetchClosedLastWeeksIssues_loop 0 (Items reply)))"

definition fetchOpenIssuesOnDueDate_weeports ::
  "Upstream \<Rightarrow> Config \<Rightarrow> string \<Rightarrow> error + Issue list" where
  "fetchOpenIssuesOnDueDate_weeports up config dueDate =
     (let searchOpts = \<lparr>OptScope = None, OptAssigneeUsername = GitlabUsername config,
            OptUpdatedAfter = None, OptDueDate = Some dueDate, OptState = ''opened''\<rparr>;
          reply = ListIssues up searchOpts
      in if Err reply \<or> StatusCode reply \<noteq> 200 then Inl Fatal
         else Inr (Items reply))"

definition fetchOpenIssuesOnDueDate ::
  "Upstream \<Rightarrow> Config \<Rightarrow> string \<Rightarrow> error + Issue list" where
  "fetchOpenIssuesOnDueDate up config dueDate =
     (let searchOpts = \<lparr>OptScope = Some ''assigned_to_me'',
            OptAssigneeUsername = GitlabUsername config,
            OptUpdatedAfter = None, OptDueDate = Some dueDate, OptState = ''opened''\<rparr>;
          reply = ListIssues up searchOpts
      in if Err reply \<or> StatusCode reply \<noteq> 200 then Inl Fatal
         else Inr (Items reply))"

text \<open>
  \<^verbatim>\<open>var issues []*gitlab.Issue\<close> starts as the nil slice, to which the two results are
  appended in turn.
\<close>

definition fetchToCloseThisWeekIssues_weeports ::
  "Upstream \<Rightarrow> Config \<Rightarrow> error + Issue list" where
  "fetchToCloseThisWeekIssues_weeports up config =
     (case fetchOpenIssuesOnDueDate_weeports up config ''week'' of
        Inl e \<Rightarrow> Inl e
      | Inr week \<Rightarrow>
          (case fetchOpenIssuesOnDueDate_weeports up config ''overdue'' of
             Inl e \<Rightarrow> Inl e
           | Inr overdue \<Rightarrow> Inr (([] @ week) @ overdue)))"

definition fetchToCloseThisWeekIssues :: "Upstream \<Rightarrow> Config \<Rightarrow> error + Issue list" where
  "fetchToCloseThisWeekIssues up config =
     (case fetchOpenIssuesOnDueDate up config ''week'' of
        Inl e \<Rightarrow> Inl e
      | Inr week \<Rightarrow>
          (case fetchOpenIssuesOnDueDate up config ''overdue'' of
             Inl e \<Rightarrow> Inl e
           | Inr overdue \<Rightarrow> Inr (([] @ week) @ overdue)))"

subsection \<open>Project names and grouping\<close>

fun fetchProjectNameMap_loop ::
  "Project list \<Rightarrow> (int \<times> string) list \<Rightarrow> (int \<times> string) list" where
  "fetchProjectNameMap_loop [] projectNameMap = projectNameMap"
| "fetchProjectNameMap_loop (project # projects) projectNameMap =
     fetchProjectNameMap_loop projects
       (AList.update (ID project) (Name project) projectNameMap)"

definition fetchProjectNameMap :: "Upstream \<Rightarrow> error + (int \<times> string) list" where
  "fetchProjectNameMap up =
     (let reply = ListProjects up
      in if Err reply \<or> StatusCode reply \<noteq> 200 then Inl Fatal
         else Inr (fetchProjectNameMap_loop (Items reply) []))"

fun groupIssuesByProject_loop ::
  "Issue list \<Rightarrow> (int \<times> Issue list) list \<Rightarrow> (int \<times> Issue list) list" where
  "groupIssuesByProject_loop [] projectIssues = projectIssues"
| "groupIssuesByProject_loop (issue # issues) projectIssues =
     groupIssuesByProject_loop issues
       (AList.update (ProjectID issue)
          (map_index [] projectIssues (ProjectID issue) @ [issue]) projectIssues)"

definition groupIssuesByProject :: "Issue list \<Rightarrow> (int \<times> Issue list) list" where
  "groupIssuesByProject issues = groupIssuesByProject_loop issues []"

subsection \<open>Merge requests\<close>

function fetchIssueLastMergeRequest_loop ::
  "string \<Rightarrow> nat \<Rightarrow> MergeRequest list \<Rightarrow> MergeRequest list" where
  "fetchIssueLastMergeRequest_loop issueTitleCleaned i mergeRequests =
     (if i < length mergeRequests then
        (if slugify (SourceBranch (mergeRequests ! i)) \<noteq> issueTitleCleaned
         then fetchIssueLastMergeRequest_loop issueTitleCleaned (i + 1)
                (slices_Delete mergeRequests i (i + 1))
         else fetchIssueLastMergeRequest_loop issueTitleCleaned (i + 1) mergeRequests)
      else mergeRequests)"
  by pat_completeness auto
termination
  by (relation "measure (\<lambda>(t, i, mergeRequests). length mergeRequests - i)")
    (auto simp: slices_Delete_def)

declare fetchIssueLastMergeRequest_loop.simps [simp del]

text \<open>
  \<^verbatim>\<open>&issue.Assignee.ID\<close> is evaluated first and panics on a nil \<^verbatim>\<open>Assignee\<close>. The
  result \<open>None\<close> is the nil merge request.
\<close>

definition fetchIssueLastMergeRequest ::
  "Upstream \<Rightarrow> Issue \<Rightarrow> error + MergeRequest option" where
  "fetchIssueLastMergeRequest up issue =
     (case Assignee issue of
        None \<Rightarrow> Inl NilPointerDereference
      | Some assignee \<Rightarrow>
          (let listMergeRequestOptions =
                 \<lparr>OptAuthorID = AssigneeID assignee, OptMRState = ''opened''\<rparr>;
               reply = ListMergeRequests up listMergeRequestOptions
           in if Err reply \<or> StatusCode reply \<noteq> 200 then Inl Fatal
              else
                (let issueTitleCleaned = slugify (Title issue);
                     mergeRequests =
                       fetchIssueLastMergeRequest_loop issueTitleCleaned 0 (Items reply)
                 in if length mergeRequests = 0 then Inr None
                    else Inr (Some (mergeRequests ! (length mergeRequests - 1))))))"

subsection \<open>Rendering\<close>

definition TAB :: char where
  "TAB = CHR 0x09"

text \<open>
  \<^verbatim>\<open>src/weeports.go\<close>, \<^verbatim>\<open>formatGroupedIssues\<close>: the loop over the issues of one group,
  appending to \<^verbatim>\<open>issueStr\<close>.
\<close>

fun formatGroupedIssues_weeports_inner :: "Issue list \<Rightarrow> string \<Rightarrow> string" where
  "formatGroupedIssues_weeports_inner [] issueStr = issueStr"
| "formatGroupedIssues_weeports_inner (issue # issueGroup) issueStr =
     (let issueStr1 = issueStr @ [TAB] @ ''* ['' @ Title issue @ '']('' @ WebURL issue
                        @ '')'' @ CRLF;
          issueStr2 =
            (case DueDate issue of
               None \<Rightarrow> issueStr1
             | Some dueDate \<Rightarrow>
                 issueStr1 @ [TAB, TAB] @ ''* Due date: '' @ ISOTime_String dueDate @ CRLF)
      in formatGroupedIssues_weeports_inner issueGroup issueStr2)"

text \<open>The loop over the groups, appending to \<^verbatim>\<open>issuesStrs\<close>.\<close>

fun formatGroupedIssues_weeports_outer ::
  "(int \<times> string) list \<Rightarrow> (int \<times> Issue list) list \<Rightarrow> int list \<Rightarrow> string list
     \<Rightarrow> string list" where
  "formatGroupedIssues_weeports_outer projectNameMap groupedIssues [] issuesStrs = issuesStrs"
| "formatGroupedIssues_weeports_outer projectNameMap groupedIssues (grp # visit) issuesStrs =
     (let issueGroup = map_index [] groupedIssues grp
      in if length issueGroup = 0
         then formatGroupedIssues_weeports_outer projectNameMap groupedIssues visit issuesStrs
         else
           (let issueStr = formatGroupedIssues_weeports_inner issueGroup
                  (''* '' @ map_index [] projectNameMap grp @ '':'' @ CRLF)
            in formatGroupedIssues_weeports_outer projectNameMap groupedIssues visit
                 (issuesStrs @ [issueStr])))"

text \<open>\<^verbatim>\<open>strings.Join(issuesStrs, "")\<close> is \<open>concat\<close>.\<close>

definition formatGroupedIssues_weeports ::
  "Upstream \<Rightarrow> int list \<Rightarrow> (int \<times> Issue list) list \<Rightarrow> error + string" where
  "formatGroupedIssues_weeports up visit groupedIssues =
     (case fetchProjectNameMap up of
        Inl e \<Rightarrow> Inl e
      | Inr projectNameMap \<Rightarrow>
          Inr (concat (formatGroupedIssues_weeports_outer projectNameMap groupedIssues visit [])))"

definition formatClosedLastWeekIssues ::
  "Upstream \<Rightarrow> Config \<Rightarrow> int list \<Rightarrow> error + string" where
  "formatClosedLastWeekIssues up config visit =
     (case fetchClosedLastWeekIssues up config of
        Inl e \<Rightarrow> Inl e
      | Inr issues \<Rightarrow>
          if length issues = 0 then Inr []
          else
            (let groupedIssues = groupIssuesByProject issues
             in if length groupedIssues = 0 then Inr []
                else
                  (let title = ''Issues closed last week:'' @ CRLF @ CRLF
                   in case formatGroupedIssues_weeports up visit groupedIssues of
                        Inl e \<Rightarrow> Inl e
                      | Inr body \<Rightarrow> Inr (title @ body @ CRLF))))"

definition formatToCloseThisWeekIssues_weeports ::
  "Upstream \<Rightarrow> Config \<Rightarrow> int list \<Rightarrow> error + string" where
  "formatToCloseThisWeekIssues_weeports up config visit =
     (case fetchToCloseThisWeekIssues_weeports up config of
        Inl e \<Rightarrow> Inl e
      | Inr issues \<Rightarrow>
          if length issues = 0 then Inr []
          else
            (let groupedIssues = groupIssuesByProject issues
             in if length groupedIssues = 0 then Inr []
                else
                  (let title = ''Issues to close this week:'' @ CRLF @ CRLF
                   in case formatGroupedIssues_weeports up visit groupedIssues of
                        Inl e \<Rightarrow> Inl e
                      | Inr body \<Rightarrow> Inr (title @ body @ CRLF))))"

text \<open>
  \<^verbatim>\<open>src/unnamed/part_001\<close>, \<^verbatim>\<open>formatGroupedIssues\<close>: each issue is followed by a lookup of
  its merge request, which can end the run.
\<close>

fun formatGroupedIssues_inner :: "Upstream \<Rightarrow> Issue list \<Rightarrow> string \<Rightarrow> error + string" where
  "formatGroupedIssues_inner up [] issueStr = Inr issueStr"
| "formatGroupedIssues_inner up (issue # issueGroup) issueStr =
     (let issueStr1 = issueStr @ ''  * ['' @ Title issue @ '']('' @ WebURL issue
                        @ '')'' @ CRLF;
          issueStr2 =
            (case DueDate issue of
               None \<Rightarrow> issueStr1
             | Some dueDate \<Rightarrow>
                 issueStr1 @ ''    * Due date: '' @ ISOTime_String dueDate @ CRLF)
      in case fetchIssueLastMergeRequest up issue of
           Inl e \<Rightarrow> Inl e
         | Inr None \<Rightarrow> formatGroupedIssues_inner up issueGroup issueStr2
         | Inr (Some mergeRequest) \<Rightarrow>
             formatGroupedIssues_inner up issueGroup
               (issueStr2 @ ''    * Merge request: ['' @ MRTitle mergeRequest @ ''](''
                  @ MRWebURL mergeRequest @ '')'' @ CRLF))"

fun formatGroupedIssues_outer ::
  "Upstream \<Rightarrow> (int \<times> string) list \<Rightarrow> (int \<times> Issue list) list \<Rightarrow> int list
     \<Rightarrow> string list \<Rightarrow> error + string list" where
  "formatGroupedIssues_outer up projectNameMap groupedIssues [] issuesStrs = Inr issuesStrs"
| "formatGroupedIssues_outer up projectNameMap groupedIssues (grp # visit) issuesStrs =
     (let issueGroup = map_index [] groupedIssues grp
      in if length issueGroup = 0
         then formatGroupedIssues_outer up projectNameMap groupedIssues visit issuesStrs
         else
           (case formatGroupedIssues_inner up issueGroup
                   (''#### '' @ map_index [] projectNameMap grp @ '':'' @ CRLF) of
              Inl e \<Rightarrow> Inl e
            | Inr issueStr \<Rightarrow>
                formatGroupedIssues_outer up projectNameMap groupedIssues visit
                  (issuesStrs @ [issueStr])))"

definition formatGroupedIssues ::
  "Upstream \<Rightarrow> int list \<Rightarrow> (int \<times> Issue list) list \<Rightarrow> error + string" where
  "formatGroupedIssues up visit groupedIssues =
     (case fetchProjectNameMap up of
        Inl e \<Rightarrow> Inl e
      | Inr projectNameMap \<Rightarrow>
          (case formatGroupedIssues_outer up projectNameMap groupedIssues visit [] of
             Inl e \<Rightarrow> Inl e
           | Inr issuesStrs \<Rightarrow> Inr (concat issuesStrs)))"

definition formatClosedLastWeeksIssues ::
  "Upstream \<Rightarrow> Config \<Rightarrow> int \<Rightarrow> int list \<Rightarrow> error + string" where
  "formatClosedLastWeeksIssues up config weeks visit =
     (case fetchClosedLastWeeksIssues up config weeks of
        Inl e \<Rightarrow> Inl e
      | Inr issues \<Rightarrow>
          if length issues = 0 then Inr []
          else
            (let groupedIssues = groupIssuesByProject issues
             in if length groupedIssues = 0 then Inr []
                else
                  (let weeksStr =
                         (if weeks > 1 then ''in the last '' @ itoa weeks @ '' weeks''
                          else ''last week'');
                       title = ''### Issues closed '' @ weeksStr @ '':'' @ CRLF @ CRLF
                   in case formatGroupedIssues up visit groupedIssues of
                        Inl e \<Rightarrow> Inl e
                      | Inr body \<Rightarrow> Inr (title @ body @ CRLF))))"

definition formatToCloseThisWeekIssues ::
  "Upstream \<Rightarrow> Config \<Rightarrow> int list \<Rightarrow> error + string" where
  "formatToCloseThisWeekIssues up config visit =
     (case fetchToCloseThisWeekIssues up config of
        Inl e \<Rightarrow> Inl e
      | Inr issues \<Rightarrow>
          if length issues = 0 then Inr []
          else
            (let groupedIssues = groupIssuesByProject issues
             in if length groupedIssues = 0 then Inr []
                else
                  (let title = ''### Issues to close this week:'' @ CRLF @ CRLF
                   in case formatGroupedIssues up visit groupedIssues of
                        Inl e \<Rightarrow> Inl e
                      | Inr body \<Rightarrow> Inr (title @ body @ CRLF))))"

subsection \<open>The text of one issue and of one project\<close>

text \<open>
  Notation for the texts that the two loops of \<^verbatim>\<open>formatGroupedIssues\<close> put together, used
  to state what the functions return. For one issue, the body of the inner loop appends
  the line of the issue, the line of its due date when it has one, and (in
  \<^verbatim>\<open>src/unnamed/part_001\<close>) the line of its merge request when the lookup finds one. For
  one project, the outer loop starts from the heading and runs the inner loop over the
  issues of the project.
\<close>

abbreviation issueText_weeports :: "Issue \<Rightarrow> string" where
  "issueText_weeports issue \<equiv>
     [TAB] @ ''* ['' @ Title issue @ '']('' @ WebURL issue @ '')'' @ CRLF
     @ (case DueDate issue of
          None \<Rightarrow> []
        | Some dueDate \<Rightarrow> [TAB, TAB] @ ''* Due date: '' @ ISOTime_String dueDate @ CRLF)"

abbreviation projectBlock_weeports ::
  "(int \<times> string) list \<Rightarrow> (int \<times> Issue list) list \<Rightarrow> int \<Rightarrow> string" where
  "projectBlock_weeports projectNameMap groupedIssues grp \<equiv>
     ''* '' @ map_index [] projectNameMap grp @ '':'' @ CRLF
     @ concat (map issueText_weeports (map_index [] groupedIssues grp))"

abbreviation issueText :: "Upstream \<Rightarrow> Issue \<Rightarrow> string" where
  "issueText up issue \<equiv>
     ''  * ['' @ Title issue @ '']('' @ WebURL issue @ '')'' @ CRLF
     @ (case DueDate issue of
          None \<Rightarrow> []
        | Some dueDate \<Rightarrow> ''    * Due date: '' @ ISOTime_String dueDate @ CRLF)
     @ (case fetchIssueLastMergeRequest up issue of
          Inl e \<Rightarrow> []
        | Inr None \<Rightarrow> []
        | Inr (Some mergeRequest) \<Rightarrow>
            ''    * Merge request: ['' @ MRTitle mergeRequest @ ''](''
              @ MRWebURL mergeRequest @ '')'' @ CRLF)"

abbreviation projectBlock ::
  "Upstream \<Rightarrow> (int \<times> string) list \<Rightarrow> (int \<times> Issue list) list \<Rightarrow> int \<Rightarrow> string" where
  "projectBlock up projectNameMap groupedIssues grp \<equiv>
     ''#### '' @ map_index [] projectNameMap grp @ '':'' @ CRLF
     @ concat (map (issueText up) (map_index [] groupedIssues grp))"

subsection \<open>The shape of a rendered section\<close>

text \<open>
  A text ends in a line when its last three bytes are a byte other than line feed,
  then carriage return and line feed: its last line is not empty.
\<close>

definition ends_line :: "string \<Rightarrow> bool" where
  "ends_line s = (case rev s of l # r # c # _ \<Rightarrow> l = LF \<and> r = CR \<and> c \<noteq> LF | _ \<Rightarrow> False)"

text \<open>
  The words of the specification for a section: it does not begin with a blank line, and
  it ends with exactly one blank line (there is an empty line at the end and the line
  before it is not empty).
\<close>

definition well_formed_section :: "string \<Rightarrow> bool" where
  "well_formed_section s =
     (\<not> prefix CRLF s \<and> suffix (CRLF @ CRLF) s \<and> \<not> suffix (CRLF @ CRLF @ CRLF) s)"

subsection \<open>Sending the report\<close>

text \<open>
  \<open>now\<close> is the date of \<^verbatim>\<open>time.Now()\<close>, \<open>sendMailErr\<close> whether \<^verbatim>\<open>smtp.SendMail\<close> returns
  an error. The result is the message handed to the mail transport.
  \<^verbatim>\<open>src/weeports.go\<close> formats the date with the layout \<^verbatim>\<open>"2006-01-01"\<close>.
\<close>

definition sendEmail_weeports :: "Config \<Rightarrow> Time \<Rightarrow> bool \<Rightarrow> string \<Rightarrow> error + string" where
  "sendEmail_weeports config nowTime sendMailErr msgBody =
     (let toStr = RecipientEmail config;
          now = Format nowTime ''2006-01-01'';
          message = ''To: '' @ toStr @ CRLF
                    @ ''Subject: Weekly report ('' @ now @ '')'' @ CRLF
                    @ CRLF @ msgBody @ CRLF
      in if sendMailErr then Inl Fatal else Inr message)"

text \<open>\<^verbatim>\<open>src/unnamed/part_001\<close> formats it with \<^verbatim>\<open>"2006-01-02"\<close>.\<close>

definition sendEmail :: "Config \<Rightarrow> Time \<Rightarrow> bool \<Rightarrow> string \<Rightarrow> error + string" where
  "sendEmail config nowTime sendMailErr msgBody =
     (let toStr = RecipientEmail config;
          nowString = Format nowTime ''2006-01-02'';
          message = ''To: '' @ toStr @ CRLF
                    @ ''Subject: Weekly report ('' @ nowString @ '')'' @ CRLF
                    @ CRLF @ msgBody @ CRLF
      in if sendMailErr then Inl Fatal else Inr message)"

subsection \<open>Example inputs\<close>

text \<open>
  Concrete configurations, issues, merge requests and service answers, on which the
  functions above are run below.
\<close>

definition ex_config :: Config where
  "ex_config = \<lparr>GitlabUrl = ''https://git.domain.com'', GitlabToken = ''gitlab-secret-token'',
     GitlabUsername = ''gitlab-username'', SMTPUsername = ''user@domain.com'',
     SMTPPassword = ''email-password'', SMTPHost = ''smtp.domain.com'', SMTPPort = ''587'',
     RecipientEmail = ''manager@domain.com''\<rparr>"

definition ex_reply :: "'a list \<Rightarrow> 'a Reply" where
  "ex_reply xs = \<lparr>Items = xs, Status = ''200 OK'', StatusCode = 200, Err = False\<rparr>"

definition ex_upstream ::
  "Issue list \<Rightarrow> Issue list \<Rightarrow> Issue list \<Rightarrow> Project list \<Rightarrow> MergeRequest list \<Rightarrow> Upstream" where
  "ex_upstream closed week overdue projects mergeRequests =
     \<lparr>ListIssues = (\<lambda>opts. ex_reply
          (if OptDueDate opts = Some ''week'' then week
           else if OptDueDate opts = Some ''overdue'' then overdue
           else closed)),
      ListProjects = ex_reply projects,
      ListMergeRequests = (\<lambda>opts. ex_reply mergeRequests)\<rparr>"

definition ex_issue :: "int \<Rightarrow> int \<Rightarrow> int \<Rightarrow> string \<Rightarrow> Issue" where
  "ex_issue i project movedTo title =
     \<lparr>IssueID = i, ProjectID = project, MovedToID = movedTo, Title = title,
      WebURL = ''https://git.domain.com/issues/'' @ itoa i, DueDate = None,
      Assignee = Some \<lparr>AssigneeID = 7\<rparr>\<rparr>"

definition ex_mr :: "int \<Rightarrow> string \<Rightarrow> MergeRequest" where
  "ex_mr i branch =
     \<lparr>MergeRequestID = i, MRTitle = ''Draft: '' @ branch, SourceBranch = branch,
      MRWebURL = ''https://git.domain.com/merge_requests/'' @ itoa i\<rparr>"

text \<open>
  Two issues of two projects, the second with a due date. The service knows the name of
  project 10 only, and lists one open merge request, on the branch of the first issue.
\<close>

definition ex_issues :: "Issue list" where
  "ex_issues =
     [ex_issue 1 10 0 ''Fix 42'',
      (ex_issue 2 11 0 ''Write docs'')\<lparr>DueDate := Some \<lparr>Year = 2024, Month = 3, Day = 15\<rparr>\<rparr>]"

definition ex_service :: Upstream where
  "ex_service =
     ex_upstream ex_issues [ex_issues ! 0] [ex_issues ! 1] [\<lparr>ID = 10, Name = ''weeports''\<rparr>]
       [ex_mr 1 ''fix-42'']"

section \<open>Properties\<close>

subsection \<open>slugify\<close>

lemma ToLower_byte_alnum:
  "\<not> nonAlphanumeric c \<Longrightarrow> \<not> nonAlphanumeric (ToLower_byte c)"
  by (auto simp: nonAlphanumeric_def ToLower_byte_def Let_def)

lemma ToLower_byte_idem:
  "ToLower_byte (ToLower_byte c) = ToLower_byte c"
  by (auto simp: ToLower_byte_def Let_def)

lemma slugify_alnum:
  "\<forall>c \<in> set (slugify x). \<not> nonAlphanumeric c"
  by (auto simp: slugify_def ToLower_def ReplaceAllString_def ToLower_byte_alnum)

lemma ReplaceAllString_slugify:
  "ReplaceAllString (slugify x) = slugify x"
  unfolding ReplaceAllString_def using slugify_alnum [of x] by (simp add: filter_id_conv)

lemma ToLower_slugify:
  "ToLower (slugify x) = slugify x"
  by (simp add: slugify_def ToLower_def ToLower_byte_idem)

lemma nonAlphanumeric_ToLower_byte:
  "nonAlphanumeric (ToLower_byte c) = nonAlphanumeric c"
  by (auto simp: nonAlphanumeric_def ToLower_byte_def Let_def)

lemma ReplaceAllString_ToLower:
  "ReplaceAllString (ToLower x) = ToLower (ReplaceAllString x)"
  by (induction x)
     (simp_all add: ReplaceAllString_def ToLower_def nonAlphanumeric_ToLower_byte)

lemma ToLower_idem:
  "ToLower (ToLower x) = ToLower x"
  by (simp add: ToLower_def ToLower_byte_idem)

lemma slugify_ToLower:
  "slugify (ToLower x) = slugify x"
  by (simp add: slugify_def ReplaceAllString_ToLower ToLower_idem)

lemma slugify_drop_nonAlphanumeric:
  "nonAlphanumeric c \<Longrightarrow> slugify (xs @ c # ys) = slugify (xs @ ys)"
  by (simp add: slugify_def ReplaceAllString_def)

lemma slugify_ReplaceAllString:
  "slugify (ReplaceAllString x) = slugify x"
  by (simp add: slugify_def ReplaceAllString_def)


text \<open>
  C4: slugify is idempotent. It is insensitive to case: lower-casing the input does
  not change the slug, so two strings that differ only in the case of their letters
  have the same slug. It is insensitive to punctuation: a byte that is not an ASCII
  letter or digit can be removed anywhere without changing the slug, so two strings with
  the same letters and digits in the same order have the same slug. The example of the
  specification: \<open>slugify "Fix Bug-42!" = slugify "fixbug42"\<close>.
\<close>

theorem slugify_idempotent_and_insensitive:
  "slugify (slugify x) = slugify x
   \<and> slugify (ToLower x) = slugify x
   \<and> (ToLower x = ToLower y \<longrightarrow> slugify x = slugify y)
   \<and> (nonAlphanumeric c \<longrightarrow> slugify (xs @ c # ys) = slugify (xs @ ys))
   \<and> (filter (\<lambda>c. \<not> nonAlphanumeric c) x = filter (\<lambda>c. \<not> nonAlphanumeric c) y
        \<longrightarrow> slugify x = slugify y)
   \<and> slugify ''Fix Bug-42!'' = slugify ''fixbug42''"
proof (intro conjI impI)
  have "slugify (slugify x) = ToLower (slugify x)"
    by (simp add: slugify_def [of "slugify x"] ReplaceAllString_slugify)
  then show "slugify (slugify x) = slugify x"
    by (simp add: ToLower_slugify)
  show "slugify (ToLower x) = slugify x" by (rule slugify_ToLower)
  show "slugify x = slugify y" if "ToLower x = ToLower y"
    using that slugify_ToLower [of x] slugify_ToLower [of y] by simp
  show "slugify (xs @ c # ys) = slugify (xs @ ys)" if "nonAlphanumeric c"
    using that by (rule slugify_drop_nonAlphanumeric)
  show "slugify x = slugify y"
    if "filter (\<lambda>c. \<not> nonAlphanumeric c) x = filter (\<lambda>c. \<not> nonAlphanumeric c) y"
    using that by (simp add: slugify_def ReplaceAllString_def)
  show "slugify ''Fix Bug-42!'' = slugify ''fixbug42''"
    by code_simp
qed


theorem slugify_idempotent_and_insensitive_witness:
  "ToLower ''WIP_x'' = ToLower ''wip_X''
   \<and> slugify ''WIP_x'' = slugify ''wip_X''
   \<and> nonAlphanumeric CHR ''_''
   \<and> slugify (''WIP'' @ CHR ''_'' # ''x'') = slugify (''WIP'' @ ''x'')
   \<and> filter (\<lambda>c. \<not> nonAlphanumeric c) ''Fix Bug-42!''
     = filter (\<lambda>c. \<not> nonAlphanumeric c) ''(Fix) Bug 42''
   \<and> slugify ''Fix Bug-42!'' = slugify ''(Fix) Bug 42''
   \<and> slugify ''WIP_x'' = ''wipx''"
proof -
  have 1: "ToLower ''WIP_x'' = ToLower ''wip_X''" by code_simp
  have 2: "nonAlphanumeric CHR ''_''" by code_simp
  have 3: "filter (\<lambda>c. \<not> nonAlphanumeric c) ''Fix Bug-42!''
     = filter (\<lambda>c. \<not> nonAlphanumeric c) ''(Fix) Bug 42''" by code_simp
  have 4: "slugify ''WIP_x'' = ''wipx''" by code_simp
  from slugify_idempotent_and_insensitive [of "''WIP_x''" "''wip_X''" "CHR ''_''" "''WIP''" "''x''"] 1 2
  have a: "slugify ''WIP_x'' = slugify ''wip_X''"
    and b: "slugify (''WIP'' @ CHR ''_'' # ''x'') = slugify (''WIP'' @ ''x'')" by blast+
  from slugify_idempotent_and_insensitive [of "''Fix Bug-42!''" "''(Fix) Bug 42''"] 3
  have c: "slugify ''Fix Bug-42!'' = slugify ''(Fix) Bug 42''" by blast
  from 1 2 3 4 a b c show ?thesis by blast
qed

subsection \<open>Closed issues and the moved-to filter\<close>

lemma slices_Delete_same:
  "slices_Delete s i i = s"
  by (simp add: slices_Delete_def)

text \<open>
  In \<^verbatim>\<open>src/weeports.go\<close> the deletion removes the empty range from \<open>i\<close> to \<open>i\<close>, so the
  loop hands back the list it was given.
\<close>

lemma fetchClosedLastWeekIssues_loop_id:
  "fetchClosedLastWeekIssues_loop i issues = issues"
  by (induction i issues rule: fetchClosedLastWeekIssues_loop.induct)
     (subst fetchClosedLastWeekIssues_loop.simps, simp add: slices_Delete_same)

text \<open>
  C1: the output of \<open>fetchClosed\<close> is meant to hold no issue whose moved-to identifier
  is non-zero. The code does not achieve it. In \<^verbatim>\<open>src/weeports.go\<close> a single moved issue
  is returned as it came. In \<^verbatim>\<open>src/unnamed/part_001\<close> the index moves on after a
  deletion, so of two moved issues in a row the second one is returned.
\<close>

theorem fetchClosed_keeps_moved_issues:
  "MovedToID (ex_issue 1 10 5 ''Moved away'') \<noteq> 0
   \<and> MovedToID (ex_issue 2 10 6 ''Moved too'') \<noteq> 0
   \<and> fetchClosedLastWeekIssues
        (ex_upstream [ex_issue 1 10 5 ''Moved away''] [] [] [] []) ex_config
      = Inr [ex_issue 1 10 5 ''Moved away'']
   \<and> fetchClosedLastWeeksIssues
        (ex_upstream [ex_issue 1 10 5 ''Moved away'', ex_issue 2 10 6 ''Moved too'']
           [] [] [] [])
        ex_config 1
      = Inr [ex_issue 2 10 6 ''Moved too'']"
  by code_simp

subsection \<open>The merge request of an issue\<close>

text \<open>
  The example of the specification: both branches slugify to the slug of the title, and
  the one listed last is returned.
\<close>

lemma fetchIssueLastMergeRequest_spec_example:
  "fetchIssueLastMergeRequest
     (ex_upstream [] [] [] [] [ex_mr 1 ''fix-42'', ex_mr 2 ''Fix42''])
     (ex_issue 1 10 0 ''Fix 42'')
   = Inr (Some (ex_mr 2 ''Fix42''))"
  by code_simp

text \<open>
  One candidate matches and two others follow it: the first of the two is deleted, the
  second is never examined and is returned.
\<close>

lemma fetchIssueLastMergeRequest_skips_after_delete:
  "fetchIssueLastMergeRequest
     (ex_upstream [] [] [] []
        [ex_mr 1 ''fix-42'', ex_mr 2 ''update-readme'', ex_mr 3 ''bump-deps''])
     (ex_issue 1 10 0 ''Fix 42'')
   = Inr (Some (ex_mr 3 ''bump-deps''))"
  by code_simp

text \<open>
  C2: \<open>findLatest\<close> is meant to return none when no candidate's slugified branch equals
  the slugified title. The code does not achieve it: of two candidates that both fail to
  match, the first is deleted, the index moves past the second, and the second is
  returned as the merge request of the issue.
\<close>

theorem fetchIssueLastMergeRequest_returns_unmatched:
  "slugify (SourceBranch (ex_mr 1 ''update-readme'')) \<noteq> slugify ''Fix 42''
   \<and> slugify (SourceBranch (ex_mr 2 ''bump-deps'')) \<noteq> slugify ''Fix 42''
   \<and> fetchIssueLastMergeRequest
        (ex_upstream [] [] [] [] [ex_mr 1 ''update-readme'', ex_mr 2 ''bump-deps''])
        (ex_issue 1 10 0 ''Fix 42'')
      = Inr (Some (ex_mr 2 ''bump-deps''))"
  by code_simp

text \<open>
  C10: \<open>findLatest\<close> reads the identifier of the issue's assignee before anything else.
  It ends in a nil pointer dereference exactly when the issue has no assignee, whatever
  the service answers.
\<close>

theorem fetchIssueLastMergeRequest_nil_assignee:
  "(fetchIssueLastMergeRequest up issue = Inl NilPointerDereference)
   = (Assignee issue = None)"
  by (cases "Assignee issue") (simp_all add: fetchIssueLastMergeRequest_def Let_def)

theorem fetchIssueLastMergeRequest_nil_assignee_witness:
  "Assignee ((ex_issue 1 10 0 ''Fix 42'')\<lparr>Assignee := None\<rparr>) = None
   \<and> fetchIssueLastMergeRequest (ex_upstream [] [] [] [] [ex_mr 1 ''fix-42''])
        ((ex_issue 1 10 0 ''Fix 42'')\<lparr>Assignee := None\<rparr>) = Inl NilPointerDereference
   \<and> fetchIssueLastMergeRequest (ex_upstream [] [] [] [] [ex_mr 1 ''fix-42''])
        (ex_issue 1 10 0 ''Fix 42'') \<noteq> Inl NilPointerDereference"
  using fetchIssueLastMergeRequest_nil_assignee
          [of "ex_upstream [] [] [] [] [ex_mr 1 ''fix-42'']"
              "(ex_issue 1 10 0 ''Fix 42'')\<lparr>Assignee := None\<rparr>"]
        fetchIssueLastMergeRequest_nil_assignee
          [of "ex_upstream [] [] [] [] [ex_mr 1 ''fix-42'']" "ex_issue 1 10 0 ''Fix 42''"]
  by (simp add: ex_issue_def)

subsection \<open>Grouping by project\<close>

lemma map_index_update:
  "map_index zero (AList.update k v m) p = (if p = k then v else map_index zero m p)"
  by (simp add: map_index_def update_conv')

lemma groupIssuesByProject_loop_map_of:
  "map_of (groupIssuesByProject_loop issues projectIssues) p =
     (if filter (\<lambda>issue. ProjectID issue = p) issues = [] then map_of projectIssues p
      else Some (map_index [] projectIssues p @ filter (\<lambda>issue. ProjectID issue = p) issues))"
proof (induction issues arbitrary: projectIssues)
  case Nil
  then show ?case by simp
next
  case (Cons issue issues)
  show ?case
    by (simp add: Cons.IH map_index_update update_conv')
qed

lemma groupIssuesByProject_loop_distinct:
  "distinct (map fst projectIssues) \<Longrightarrow>
   distinct (map fst (groupIssuesByProject_loop issues projectIssues))"
  by (induction issues arbitrary: projectIssues) (simp_all add: distinct_update)

lemma sum_list_update_append:
  "sum_list (map (\<lambda>(k, v). length v) (AList.update k (map_index [] m k @ [x]) m))
   = Suc (sum_list (map (\<lambda>(k, v). length v) m))"
  by (induction m) (auto simp: map_index_def)

lemma groupIssuesByProject_loop_sum:
  "sum_list (map (\<lambda>(k, v). length v) (groupIssuesByProject_loop issues projectIssues))
   = sum_list (map (\<lambda>(k, v). length v) projectIssues) + length issues"
  by (induction issues arbitrary: projectIssues) (simp_all add: sum_list_update_append)

lemma groupIssuesByProject_map_of:
  "map_of (groupIssuesByProject issues) p =
     (if filter (\<lambda>issue. ProjectID issue = p) issues = [] then None
      else Some (filter (\<lambda>issue. ProjectID issue = p) issues))"
  by (simp add: groupIssuesByProject_def groupIssuesByProject_loop_map_of map_index_def)

lemma groupIssuesByProject_distinct:
  "distinct (map fst (groupIssuesByProject issues))"
  by (simp add: groupIssuesByProject_def groupIssuesByProject_loop_distinct)

lemma groupIssuesByProject_entry:
  assumes "(p, issueGroup) \<in> set (groupIssuesByProject issues)"
  shows "issueGroup \<noteq> [] \<and> issueGroup = filter (\<lambda>issue. ProjectID issue = p) issues"
proof -
  from assms have "map_of (groupIssuesByProject issues) p = Some issueGroup"
    by (simp add: groupIssuesByProject_distinct)
  then show ?thesis
    by (simp add: groupIssuesByProject_map_of split: if_splits)
qed

text \<open>
  C3: \<open>groupByProject\<close> partitions the issues by project identifier. There is one group
  for each project identifier; no group is empty; the group of a project is the
  sub-sequence of the input with that project identifier, in the order supplied; every
  issue of the input is in the group of its own project identifier (and, by the second
  part, in no other); and the lengths of the groups add up to the number of issues.
\<close>

theorem groupIssuesByProject_partition:
  "distinct (map fst (groupIssuesByProject issues))
   \<and> (\<forall>(project, issueGroup) \<in> set (groupIssuesByProject issues).
         issueGroup \<noteq> []
         \<and> issueGroup = filter (\<lambda>issue. ProjectID issue = project) issues)
   \<and> (\<forall>issue \<in> set issues.
         map_of (groupIssuesByProject issues) (ProjectID issue)
           = Some (filter (\<lambda>other. ProjectID other = ProjectID issue) issues))
   \<and> sum_list (map (\<lambda>(project, issueGroup). length issueGroup) (groupIssuesByProject issues))
       = length issues"
proof (intro conjI)
  show "distinct (map fst (groupIssuesByProject issues))"
    by (rule groupIssuesByProject_distinct)
  show "\<forall>(project, issueGroup) \<in> set (groupIssuesByProject issues).
         issueGroup \<noteq> []
         \<and> issueGroup = filter (\<lambda>issue. ProjectID issue = project) issues"
    using groupIssuesByProject_entry by blast
  show "\<forall>issue \<in> set issues.
         map_of (groupIssuesByProject issues) (ProjectID issue)
           = Some (filter (\<lambda>other. ProjectID other = ProjectID issue) issues)"
    by (auto simp: groupIssuesByProject_map_of filter_empty_conv)
  show "sum_list (map (\<lambda>(project, issueGroup). length issueGroup) (groupIssuesByProject issues))
       = length issues"
    by (simp add: groupIssuesByProject_def groupIssuesByProject_loop_sum)
qed

theorem groupIssuesByProject_partition_witness:
  "groupIssuesByProject
     [ex_issue 1 10 0 ''Fix 42'', ex_issue 2 11 0 ''Write docs'', ex_issue 3 10 0 ''Ship it'']
   = [(10, [ex_issue 1 10 0 ''Fix 42'', ex_issue 3 10 0 ''Ship it'']),
      (11, [ex_issue 2 11 0 ''Write docs''])]
   \<and> [ex_issue 1 10 0 ''Fix 42'', ex_issue 3 10 0 ''Ship it'']
      = filter (\<lambda>issue. ProjectID issue = 10)
          [ex_issue 1 10 0 ''Fix 42'', ex_issue 2 11 0 ''Write docs'',
           ex_issue 3 10 0 ''Ship it'']
   \<and> [ex_issue 2 11 0 ''Write docs'']
      = filter (\<lambda>issue. ProjectID issue = 11)
          [ex_issue 1 10 0 ''Fix 42'', ex_issue 2 11 0 ''Write docs'',
           ex_issue 3 10 0 ''Ship it'']
   \<and> map_of (groupIssuesByProject
        [ex_issue 1 10 0 ''Fix 42'', ex_issue 2 11 0 ''Write docs'',
         ex_issue 3 10 0 ''Ship it'']) (ProjectID (ex_issue 3 10 0 ''Ship it''))
      = Some [ex_issue 1 10 0 ''Fix 42'', ex_issue 3 10 0 ''Ship it'']
   \<and> sum_list (map (\<lambda>(project, issueGroup). length issueGroup)
        (groupIssuesByProject
           [ex_issue 1 10 0 ''Fix 42'', ex_issue 2 11 0 ''Write docs'',
            ex_issue 3 10 0 ''Ship it''])) = 3"
proof -
  let ?issues = "[ex_issue 1 10 0 ''Fix 42'', ex_issue 2 11 0 ''Write docs'',
                  ex_issue 3 10 0 ''Ship it'']"
  have grouped: "groupIssuesByProject ?issues
      = [(10, [ex_issue 1 10 0 ''Fix 42'', ex_issue 3 10 0 ''Ship it'']),
         (11, [ex_issue 2 11 0 ''Write docs''])]"
    by code_simp
  from groupIssuesByProject_partition [of ?issues] grouped
  show ?thesis by (simp add: ex_issue_def)
qed

subsection \<open>Issues to close this week\<close>

text \<open>
  C6: when the query for \<^verbatim>\<open>"week"\<close> returns \<open>week\<close> and the query for \<^verbatim>\<open>"overdue"\<close>
  returns \<open>overdue\<close>, \<open>fetchDueThisWeek\<close> returns \<open>week\<close> followed by \<open>overdue\<close>, in both
  snapshots. Nothing is removed: every issue occurs as often as in the two results
  together, so an issue in both occurs twice.
\<close>

theorem fetchToCloseThisWeekIssues_concat:
  "(fetchOpenIssuesOnDueDate up config ''week'' = Inr week
      \<and> fetchOpenIssuesOnDueDate up config ''overdue'' = Inr overdue
    \<longrightarrow> fetchToCloseThisWeekIssues up config = Inr (week @ overdue))
   \<and> (fetchOpenIssuesOnDueDate_weeports up config ''week'' = Inr week
      \<and> fetchOpenIssuesOnDueDate_weeports up config ''overdue'' = Inr overdue
    \<longrightarrow> fetchToCloseThisWeekIssues_weeports up config = Inr (week @ overdue))
   \<and> count_list (week @ overdue) issue = count_list week issue + count_list overdue issue"
  by (simp add: fetchToCloseThisWeekIssues_def fetchToCloseThisWeekIssues_weeports_def)

theorem fetchToCloseThisWeekIssues_concat_witness:
  "fetchOpenIssuesOnDueDate
     (ex_upstream [] [ex_issue 1 10 0 ''Fix 42'', ex_issue 2 11 0 ''Write docs'']
        [ex_issue 2 11 0 ''Write docs''] [] []) ex_config ''week''
     = Inr [ex_issue 1 10 0 ''Fix 42'', ex_issue 2 11 0 ''Write docs'']
   \<and> fetchOpenIssuesOnDueDate
     (ex_upstream [] [ex_issue 1 10 0 ''Fix 42'', ex_issue 2 11 0 ''Write docs'']
        [ex_issue 2 11 0 ''Write docs''] [] []) ex_config ''overdue''
     = Inr [ex_issue 2 11 0 ''Write docs'']
   \<and> fetchToCloseThisWeekIssues
     (ex_upstream [] [ex_issue 1 10 0 ''Fix 42'', ex_issue 2 11 0 ''Write docs'']
        [ex_issue 2 11 0 ''Write docs''] [] []) ex_config
     = Inr [ex_issue 1 10 0 ''Fix 42'', ex_issue 2 11 0 ''Write docs'',
            ex_issue 2 11 0 ''Write docs'']
   \<and> fetchToCloseThisWeekIssues_weeports
     (ex_upstream [] [ex_issue 1 10 0 ''Fix 42'', ex_issue 2 11 0 ''Write docs'']
        [ex_issue 2 11 0 ''Write docs''] [] []) ex_config
     = Inr [ex_issue 1 10 0 ''Fix 42'', ex_issue 2 11 0 ''Write docs'',
            ex_issue 2 11 0 ''Write docs'']
   \<and> count_list
       ([ex_issue 1 10 0 ''Fix 42'', ex_issue 2 11 0 ''Write docs'']
          @ [ex_issue 2 11 0 ''Write docs'']) (ex_issue 2 11 0 ''Write docs'') = 2"
proof -
  let ?up = "ex_upstream [] [ex_issue 1 10 0 ''Fix 42'', ex_issue 2 11 0 ''Write docs'']
        [ex_issue 2 11 0 ''Write docs''] [] []"
  let ?week = "[ex_issue 1 10 0 ''Fix 42'', ex_issue 2 11 0 ''Write docs'']"
  let ?overdue = "[ex_issue 2 11 0 ''Write docs'']"
  have week: "fetchOpenIssuesOnDueDate ?up ex_config ''week'' = Inr ?week"
    by (simp add: fetchOpenIssuesOnDueDate_def ex_upstream_def ex_reply_def)
  have overdue: "fetchOpenIssuesOnDueDate ?up ex_config ''overdue'' = Inr ?overdue"
    by (simp add: fetchOpenIssuesOnDueDate_def ex_upstream_def ex_reply_def)
  have week': "fetchOpenIssuesOnDueDate_weeports ?up ex_config ''week'' = Inr ?week"
    by (simp add: fetchOpenIssuesOnDueDate_weeports_def ex_upstream_def ex_reply_def)
  have overdue': "fetchOpenIssuesOnDueDate_weeports ?up ex_config ''overdue'' = Inr ?overdue"
    by (simp add: fetchOpenIssuesOnDueDate_weeports_def ex_upstream_def ex_reply_def)
  have differ: "ex_issue 1 10 0 ''Fix 42'' \<noteq> ex_issue 2 11 0 ''Write docs''"
    by (simp add: ex_issue_def)
  from fetchToCloseThisWeekIssues_concat
         [of ?up ex_config ?week ?overdue "ex_issue 2 11 0 ''Write docs''"]
       week overdue week' overdue' differ
  show ?thesis by simp
qed

subsection \<open>Lines of the rendered text\<close>

lemma ends_line_snoc:
  "c \<noteq> LF \<Longrightarrow> ends_line (s @ c # CRLF)"
  by (simp add: ends_line_def CRLF_def)

lemma ends_line_append:
  "ends_line t \<Longrightarrow> ends_line (s @ t)"
  by (auto simp: ends_line_def split: list.splits)

lemma ends_line_decompose:
  "ends_line s \<Longrightarrow> \<exists>t c. s = t @ c # CRLF \<and> c \<noteq> LF"
proof -
  assume a: "ends_line s"
  then obtain l r c u where r: "rev s = l # r # c # u" and lr: "l = LF" "r = CR" "c \<noteq> LF"
    by (auto simp: ends_line_def split: list.splits)
  from r have "s = rev (l # r # c # u)" by (metis rev_rev_ident)
  with lr have "s = rev u @ c # CRLF" by (simp add: CRLF_def)
  with lr show ?thesis by blast
qed

lemma ends_line_section:
  assumes "ends_line body"
  shows "suffix (CRLF @ CRLF) (title @ body @ CRLF)
         \<and> \<not> suffix (CRLF @ CRLF @ CRLF) (title @ body @ CRLF)"
proof -
  from assms obtain t c where b: "body = t @ c # CRLF" and c: "c \<noteq> LF"
    using ends_line_decompose by blast
  have 1: "title @ body @ CRLF = (title @ t @ [c]) @ (CRLF @ CRLF)"
    by (simp add: b)
  have "suffix (CRLF @ CRLF) (title @ body @ CRLF)"
    unfolding 1 by (rule suffix_appendI) simp
  moreover have "\<not> suffix (CRLF @ CRLF @ CRLF) (title @ body @ CRLF)"
    using c by (simp add: b suffix_to_prefix CRLF_def)
  ultimately show ?thesis by blast
qed

lemma digit_not_LF: "d < 10 \<Longrightarrow> digit d \<noteq> LF"
proof
  assume d: "d < 10" and e: "digit d = LF"
  have "of_char (digit d) = (48 + d :: nat)"
    using d by (simp add: digit_def)
  moreover have "of_char LF = (10::nat)" by (simp add: LF_def)
  ultimately show False using e by simp
qed

lemma utoa_last: "\<exists>t. utoa u = t @ [digit (u mod 10)]"
  by (subst utoa.simps) auto

lemma appendInt_last: "\<exists>t c. appendInt x w = t @ [c] \<and> c \<noteq> LF"
proof -
  obtain t where t: "utoa (nat \<bar>x\<bar>) = t @ [digit (nat \<bar>x\<bar> mod 10)]"
    using utoa_last by blast
  have "digit (nat \<bar>x\<bar> mod 10) \<noteq> LF" by (rule digit_not_LF) simp
  moreover have "appendInt x w = ((if x < 0 then [CHR ''-''] else [])
      @ replicate (w - length (utoa (nat \<bar>x\<bar>))) CHR ''0'' @ t) @ [digit (nat \<bar>x\<bar> mod 10)]"
    unfolding appendInt_def Let_def by (subst (2) t) simp
  ultimately show ?thesis by blast
qed

lemma ISOTime_String_eq:
  "ISOTime_String t = appendInt (Year t) 4 @ CHR ''-'' # appendInt (int (Month t)) 2
     @ CHR ''-'' # appendInt (int (Day t)) 2"
  by (simp add: ISOTime_String_def Format.simps)

lemma ISOTime_String_last: "\<exists>s c. ISOTime_String t = s @ [c] \<and> c \<noteq> LF"
proof -
  obtain s c where "appendInt (int (Day t)) 2 = s @ [c]" "c \<noteq> LF"
    using appendInt_last by blast
  then have "ISOTime_String t = (appendInt (Year t) 4 @ CHR ''-'' # appendInt (int (Month t)) 2
     @ CHR ''-'' # s) @ [c] \<and> c \<noteq> LF"
    by (simp add: ISOTime_String_eq)
  then show ?thesis by blast
qed

lemma ends_line_due_date:
  "ends_line (s @ ISOTime_String t @ CRLF)"
proof -
  obtain u c where u: "ISOTime_String t = u @ [c]" "c \<noteq> LF"
    using ISOTime_String_last by blast
  have "ends_line ((s @ u) @ c # CRLF)" using u(2) by (rule ends_line_snoc)
  then show ?thesis by (simp add: u(1))
qed

lemma paren_not_LF: "CHR '')'' \<noteq> LF"
  by (simp add: LF_def)

lemma colon_not_LF: "CHR '':'' \<noteq> LF"
  by (simp add: LF_def)

lemma ends_line_issue_line:
  "ends_line (s @ a @ t @ b @ u @ '')'' @ CRLF)"
proof -
  have "ends_line ((s @ a @ t @ b @ u) @ CHR '')'' # CRLF)"
    using paren_not_LF by (rule ends_line_snoc)
  then show ?thesis by simp
qed

lemma ends_line_header:
  "ends_line (a @ name @ '':'' @ CRLF)"
proof -
  have "ends_line ((a @ name) @ CHR '':'' # CRLF)"
    using colon_not_LF by (rule ends_line_snoc)
  then show ?thesis by simp
qed

lemma formatGroupedIssues_inner_ends_line:
  "formatGroupedIssues_inner up issueGroup issueStr = Inr s \<Longrightarrow> ends_line issueStr
   \<Longrightarrow> ends_line s"
proof (induction issueGroup arbitrary: issueStr)
  case Nil
  then show ?case by simp
next
  case (Cons issue issueGroup)
  let ?s1 = "issueStr @ ''  * ['' @ Title issue @ '']('' @ WebURL issue @ '')'' @ CRLF"
  let ?s2 = "case DueDate issue of None \<Rightarrow> ?s1
             | Some dueDate \<Rightarrow> ?s1 @ ''    * Due date: '' @ ISOTime_String dueDate @ CRLF"
  have e1: "ends_line ?s1" by (rule ends_line_issue_line)
  have e2: "ends_line ?s2"
  proof (cases "DueDate issue")
    case None
    with e1 show ?thesis by simp
  next
    case (Some dueDate)
    have "ends_line ((?s1 @ ''    * Due date: '') @ ISOTime_String dueDate @ CRLF)"
      by (rule ends_line_due_date)
    with Some show ?thesis by simp
  qed
  have step: "formatGroupedIssues_inner up (issue # issueGroup) issueStr
      = (case fetchIssueLastMergeRequest up issue of
           Inl e \<Rightarrow> Inl e
         | Inr None \<Rightarrow> formatGroupedIssues_inner up issueGroup ?s2
         | Inr (Some mergeRequest) \<Rightarrow>
             formatGroupedIssues_inner up issueGroup
               (?s2 @ ''    * Merge request: ['' @ MRTitle mergeRequest @ ''](''
                  @ MRWebURL mergeRequest @ '')'' @ CRLF))"
    by (simp only: formatGroupedIssues_inner.simps Let_def)
  show ?case
  proof (cases "fetchIssueLastMergeRequest up issue")
    case (Inl e)
    with Cons.prems(1) show ?thesis
      unfolding step by (simp only: sum.case sum.distinct)
  next
    case (Inr found)
    show ?thesis
    proof (cases found)
      case None
      from Cons.prems(1) have "formatGroupedIssues_inner up issueGroup ?s2 = Inr s"
        unfolding step Inr None by (simp only: sum.case option.case)
      with e2 show ?thesis by (rule Cons.IH [rotated])
    next
      case (Some mergeRequest)
      let ?s3 = "?s2 @ ''    * Merge request: ['' @ MRTitle mergeRequest @ ''](''
                   @ MRWebURL mergeRequest @ '')'' @ CRLF"
      from Cons.prems(1) have "formatGroupedIssues_inner up issueGroup ?s3 = Inr s"
        unfolding step Inr Some by (simp only: sum.case option.case)
      moreover have "ends_line ?s3" by (rule ends_line_issue_line)
      ultimately show ?thesis by (rule Cons.IH)
    qed
  qed
qed

lemma formatGroupedIssues_weeports_inner_ends_line:
  "ends_line issueStr \<Longrightarrow> ends_line (formatGroupedIssues_weeports_inner issueGroup issueStr)"
proof (induction issueGroup arbitrary: issueStr)
  case Nil
  then show ?case by simp
next
  case (Cons issue issueGroup)
  let ?s1 = "issueStr @ [TAB] @ ''* ['' @ Title issue @ '']('' @ WebURL issue @ '')'' @ CRLF"
  let ?s2 = "case DueDate issue of None \<Rightarrow> ?s1
             | Some dueDate \<Rightarrow> ?s1 @ [TAB, TAB] @ ''* Due date: '' @ ISOTime_String dueDate @ CRLF"
  have e1: "ends_line ?s1"
    using ends_line_issue_line [of "issueStr @ [TAB]" "''* [''" "Title issue" "''](''"
        "WebURL issue"] by simp
  have e2: "ends_line ?s2"
  proof (cases "DueDate issue")
    case None
    with e1 show ?thesis by simp
  next
    case (Some dueDate)
    have "ends_line ((?s1 @ [TAB, TAB] @ ''* Due date: '') @ ISOTime_String dueDate @ CRLF)"
      by (rule ends_line_due_date)
    with Some show ?thesis by simp
  qed
  have "formatGroupedIssues_weeports_inner (issue # issueGroup) issueStr
        = formatGroupedIssues_weeports_inner issueGroup ?s2"
    by (simp only: formatGroupedIssues_weeports_inner.simps Let_def)
  with Cons.IH [OF e2] show ?case by (simp only:)
qed

lemma formatGroupedIssues_inner_isl:
  "isl (formatGroupedIssues_inner up issueGroup issueStr)
   = (\<exists>issue \<in> set issueGroup. isl (fetchIssueLastMergeRequest up issue))"
  by (induction issueGroup arbitrary: issueStr)
     (auto simp: Let_def split: sum.splits option.splits)

lemma formatGroupedIssues_outer_isl:
  "isl (formatGroupedIssues_outer up projectNameMap groupedIssues visit issuesStrs)
   = (\<exists>grp \<in> set visit. \<exists>issue \<in> set (map_index [] groupedIssues grp).
        isl (fetchIssueLastMergeRequest up issue))"
proof (induction visit arbitrary: issuesStrs)
  case Nil
  then show ?case by simp
next
  case (Cons grp visit)
  show ?case
  proof (cases "formatGroupedIssues_inner up (map_index [] groupedIssues grp)
                  (''#### '' @ map_index [] projectNameMap grp @ '':'' @ CRLF)")
    case (Inl e)
    then have "isl (formatGroupedIssues_inner up (map_index [] groupedIssues grp)
                  (''#### '' @ map_index [] projectNameMap grp @ '':'' @ CRLF))" by simp
    then have "\<exists>issue \<in> set (map_index [] groupedIssues grp).
        isl (fetchIssueLastMergeRequest up issue)"
      by (simp only: formatGroupedIssues_inner_isl)
    with Inl show ?thesis by (auto simp: Let_def Cons.IH)
  next
    case (Inr issueStr)
    then have "\<not> isl (formatGroupedIssues_inner up (map_index [] groupedIssues grp)
                  (''#### '' @ map_index [] projectNameMap grp @ '':'' @ CRLF))" by simp
    then have "\<not> (\<exists>issue \<in> set (map_index [] groupedIssues grp).
        isl (fetchIssueLastMergeRequest up issue))"
      by (simp add: formatGroupedIssues_inner_isl)
    with Inr show ?thesis by (auto simp: Let_def Cons.IH)
  qed
qed

lemma formatGroupedIssues_outer_blocks:
  "formatGroupedIssues_outer up projectNameMap groupedIssues visit issuesStrs = Inr strs
   \<Longrightarrow> strs = issuesStrs
         @ map (\<lambda>grp. projr (formatGroupedIssues_inner up (map_index [] groupedIssues grp)
                        (''#### '' @ map_index [] projectNameMap grp @ '':'' @ CRLF)))
             (filter (\<lambda>grp. map_index [] groupedIssues grp \<noteq> []) visit)"
proof (induction visit arbitrary: issuesStrs)
  case Nil
  then show ?case by simp
next
  case (Cons grp visit)
  show ?case
  proof (cases "map_index [] groupedIssues grp = []")
    case True
    with Cons.prems have "formatGroupedIssues_outer up projectNameMap groupedIssues visit
        issuesStrs = Inr strs" by simp
    from Cons.IH [OF this] True show ?thesis by simp
  next
    case False
    with Cons.prems obtain issueStr where
      i: "formatGroupedIssues_inner up (map_index [] groupedIssues grp)
            (''#### '' @ map_index [] projectNameMap grp @ '':'' @ CRLF) = Inr issueStr"
      and o: "formatGroupedIssues_outer up projectNameMap groupedIssues visit
            (issuesStrs @ [issueStr]) = Inr strs"
      by (auto simp: Let_def split: sum.splits)
    from Cons.IH [OF o] False i show ?thesis by simp
  qed
qed

lemma formatGroupedIssues_weeports_outer_blocks:
  "formatGroupedIssues_weeports_outer projectNameMap groupedIssues visit issuesStrs
   = issuesStrs
     @ map (\<lambda>grp. formatGroupedIssues_weeports_inner (map_index [] groupedIssues grp)
                    (''* '' @ map_index [] projectNameMap grp @ '':'' @ CRLF))
         (filter (\<lambda>grp. map_index [] groupedIssues grp \<noteq> []) visit)"
  by (induction visit arbitrary: issuesStrs) (simp_all add: Let_def)

lemma concat_ends_line:
  assumes "strs \<noteq> []" and "\<forall>b \<in> set strs. ends_line b"
  shows "ends_line (concat strs)"
proof -
  from assms(1) have "strs = butlast strs @ [last strs]" by simp
  then have "concat strs = concat (butlast strs) @ last strs"
    by (metis concat.simps(1) concat.simps(2) concat_append append_Nil2)
  moreover from assms have "ends_line (last strs)" by simp
  ultimately show ?thesis by (simp add: ends_line_append)
qed

lemma formatGroupedIssues_inner_block:
  assumes "formatGroupedIssues_outer up projectNameMap groupedIssues visit issuesStrs = Inr strs"
    and "grp \<in> set visit"
  shows "\<exists>b. formatGroupedIssues_inner up (map_index [] groupedIssues grp) issueStr = Inr b"
proof -
  from assms(1) have "\<not> isl (formatGroupedIssues_outer up projectNameMap groupedIssues visit
      issuesStrs)" by simp
  with assms(2) have "\<not> (\<exists>issue \<in> set (map_index [] groupedIssues grp).
      isl (fetchIssueLastMergeRequest up issue))"
    unfolding formatGroupedIssues_outer_isl by blast
  then have "\<not> isl (formatGroupedIssues_inner up (map_index [] groupedIssues grp) issueStr)"
    by (simp add: formatGroupedIssues_inner_isl)
  then show ?thesis by (cases "formatGroupedIssues_inner up (map_index [] groupedIssues grp)
    issueStr") simp_all
qed

lemma formatGroupedIssues_ends_line:
  assumes ok: "formatGroupedIssues up visit groupedIssues = Inr body"
    and ne: "\<exists>grp \<in> set visit. map_index [] groupedIssues grp \<noteq> []"
  shows "ends_line body"
proof -
  from ok obtain projectNameMap strs where
    o: "formatGroupedIssues_outer up projectNameMap groupedIssues visit [] = Inr strs"
    and body: "body = concat strs"
    by (auto simp: formatGroupedIssues_def split: sum.splits)
  let ?hdr = "\<lambda>grp. ''#### '' @ map_index [] projectNameMap grp @ '':'' @ CRLF"
  let ?blk = "\<lambda>grp. projr (formatGroupedIssues_inner up (map_index [] groupedIssues grp)
                (?hdr grp))"
  from formatGroupedIssues_outer_blocks [OF o]
  have strs: "strs = map ?blk (filter (\<lambda>grp. map_index [] groupedIssues grp \<noteq> []) visit)"
    by simp
  from ne have "filter (\<lambda>grp. map_index [] groupedIssues grp \<noteq> []) visit \<noteq> []"
    by (simp add: filter_empty_conv)
  with strs have nonempty: "strs \<noteq> []" by simp
  have "ends_line (?blk grp)" if "grp \<in> set visit" for grp
  proof -
    from formatGroupedIssues_inner_block [OF o that] obtain b where
      b: "formatGroupedIssues_inner up (map_index [] groupedIssues grp) (?hdr grp) = Inr b"
      by blast
    have "ends_line (?hdr grp)" by (rule ends_line_header)
    with b have "ends_line b" by (rule formatGroupedIssues_inner_ends_line)
    with b show ?thesis by simp
  qed
  with strs have "\<forall>b \<in> set strs. ends_line b" by auto
  with nonempty show ?thesis unfolding body by (rule concat_ends_line)
qed

lemma formatGroupedIssues_weeports_ends_line:
  assumes ok: "formatGroupedIssues_weeports up visit groupedIssues = Inr body"
    and ne: "\<exists>grp \<in> set visit. map_index [] groupedIssues grp \<noteq> []"
  shows "ends_line body"
proof -
  from ok obtain projectNameMap where
    body: "body = concat (formatGroupedIssues_weeports_outer projectNameMap groupedIssues
             visit [])"
    by (auto simp: formatGroupedIssues_weeports_def split: sum.splits)
  let ?blk = "\<lambda>grp. formatGroupedIssues_weeports_inner (map_index [] groupedIssues grp)
                (''* '' @ map_index [] projectNameMap grp @ '':'' @ CRLF)"
  let ?strs = "formatGroupedIssues_weeports_outer projectNameMap groupedIssues visit []"
  have strs: "?strs = map ?blk (filter (\<lambda>grp. map_index [] groupedIssues grp \<noteq> []) visit)"
    by (simp add: formatGroupedIssues_weeports_outer_blocks)
  from ne have "filter (\<lambda>grp. map_index [] groupedIssues grp \<noteq> []) visit \<noteq> []"
    by (simp add: filter_empty_conv)
  with strs have nonempty: "?strs \<noteq> []" by simp
  have "ends_line (?blk grp)" for grp
    by (rule formatGroupedIssues_weeports_inner_ends_line) (rule ends_line_header)
  with strs have "\<forall>b \<in> set ?strs. ends_line b" by auto
  with nonempty show ?thesis unfolding body by (rule concat_ends_line)
qed

lemma groupIssuesByProject_visit_nonempty:
  assumes "issues \<noteq> []" and "range_order (groupIssuesByProject issues) visit"
  shows "\<exists>grp \<in> set visit. map_index [] (groupIssuesByProject issues) grp \<noteq> []"
proof -
  from assms(1) obtain issue rest where issues: "issues = issue # rest"
    by (cases issues) auto
  let ?p = "ProjectID issue"
  have m: "map_of (groupIssuesByProject issues) ?p
           = Some (filter (\<lambda>other. ProjectID other = ?p) issues)"
    and f: "filter (\<lambda>other. ProjectID other = ?p) issues \<noteq> []"
    by (simp_all add: groupIssuesByProject_map_of issues)
  from m have "?p \<in> fst ` set (groupIssuesByProject issues)"
    by (metis map_of_eq_None_iff option.distinct(1))
  with assms(2) have "?p \<in> set visit" by (simp add: range_order_def)
  moreover from m f have "map_index [] (groupIssuesByProject issues) ?p \<noteq> []"
    by (simp add: map_index_def)
  ultimately show ?thesis by blast
qed

lemma well_formed_sectionI:
  assumes "ends_line body" and "\<not> prefix CRLF title" and "length title \<ge> 2"
  shows "well_formed_section (title @ body @ CRLF)"
proof -
  from assms(2,3) have "\<not> prefix CRLF (title @ body @ CRLF)"
    by (cases title; cases "tl title") (auto simp: CRLF_def)
  with ends_line_section [OF assms(1), of title] show ?thesis
    by (simp add: well_formed_section_def)
qed

lemma formatClosedLastWeeksIssues_shape:
  assumes fetch: "fetchClosedLastWeeksIssues up config weeks = Inr issues"
    and ok: "formatClosedLastWeeksIssues up config weeks visit = Inr s"
  shows "(issues = [] \<longrightarrow> s = [])
         \<and> (issues \<noteq> [] \<and> range_order (groupIssuesByProject issues) visit
            \<longrightarrow> well_formed_section s)"
proof (intro conjI impI)
  assume "issues = []"
  with fetch ok show "s = []" by (simp add: formatClosedLastWeeksIssues_def)
next
  assume a: "issues \<noteq> [] \<and> range_order (groupIssuesByProject issues) visit"
  then have ne: "\<exists>grp \<in> set visit. map_index [] (groupIssuesByProject issues) grp \<noteq> []"
    by (simp add: groupIssuesByProject_visit_nonempty)
  then have g: "groupIssuesByProject issues \<noteq> []"
    by (auto simp: map_index_def)
  let ?title = "''### Issues closed ''
     @ (if weeks > 1 then ''in the last '' @ itoa weeks @ '' weeks'' else ''last week'')
     @ '':'' @ CRLF @ CRLF"
  from fetch ok a g obtain body where
    body: "formatGroupedIssues up visit (groupIssuesByProject issues) = Inr body"
    and s: "s = ?title @ body @ CRLF"
    by (auto simp: formatClosedLastWeeksIssues_def Let_def split: sum.splits)
  from body ne have "ends_line body" by (rule formatGroupedIssues_ends_line)
  moreover have "\<not> prefix CRLF ?title" by (simp add: CRLF_def CR_def)
  moreover have "length ?title \<ge> 2" by simp
  ultimately show "well_formed_section s" unfolding s by (rule well_formed_sectionI)
qed

lemma formatToCloseThisWeekIssues_shape:
  assumes fetch: "fetchToCloseThisWeekIssues up config = Inr issues"
    and ok: "formatToCloseThisWeekIssues up config visit = Inr s"
  shows "(issues = [] \<longrightarrow> s = [])
         \<and> (issues \<noteq> [] \<and> range_order (groupIssuesByProject issues) visit
            \<longrightarrow> well_formed_section s)"
proof (intro conjI impI)
  assume "issues = []"
  with fetch ok show "s = []" by (simp add: formatToCloseThisWeekIssues_def)
next
  assume a: "issues \<noteq> [] \<and> range_order (groupIssuesByProject issues) visit"
  then have ne: "\<exists>grp \<in> set visit. map_index [] (groupIssuesByProject issues) grp \<noteq> []"
    by (simp add: groupIssuesByProject_visit_nonempty)
  then have g: "groupIssuesByProject issues \<noteq> []"
    by (auto simp: map_index_def)
  let ?title = "''### Issues to close this week:'' @ CRLF @ CRLF"
  from fetch ok a g obtain body where
    body: "formatGroupedIssues up visit (groupIssuesByProject issues) = Inr body"
    and s: "s = ?title @ body @ CRLF"
    by (auto simp: formatToCloseThisWeekIssues_def Let_def split: sum.splits)
  from body ne have "ends_line body" by (rule formatGroupedIssues_ends_line)
  moreover have "\<not> prefix CRLF ?title" by (simp add: CRLF_def CR_def)
  moreover have "length ?title \<ge> 2" by simp
  ultimately show "well_formed_section s" unfolding s by (rule well_formed_sectionI)
qed

lemma formatClosedLastWeekIssues_shape:
  assumes fetch: "fetchClosedLastWeekIssues up config = Inr issues"
    and ok: "formatClosedLastWeekIssues up config visit = Inr s"
  shows "(issues = [] \<longrightarrow> s = [])
         \<and> (issues \<noteq> [] \<and> range_order (groupIssuesByProject issues) visit
            \<longrightarrow> well_formed_section s)"
proof (intro conjI impI)
  assume "issues = []"
  with fetch ok show "s = []" by (simp add: formatClosedLastWeekIssues_def)
next
  assume a: "issues \<noteq> [] \<and> range_order (groupIssuesByProject issues) visit"
  then have ne: "\<exists>grp \<in> set visit. map_index [] (groupIssuesByProject issues) grp \<noteq> []"
    by (simp add: groupIssuesByProject_visit_nonempty)
  then have g: "groupIssuesByProject issues \<noteq> []"
    by (auto simp: map_index_def)
  let ?title = "''Issues closed last week:'' @ CRLF @ CRLF"
  from fetch ok a g obtain body where
    body: "formatGroupedIssues_weeports up visit (groupIssuesByProject issues) = Inr body"
    and s: "s = ?title @ body @ CRLF"
    by (auto simp: formatClosedLastWeekIssues_def Let_def split: sum.splits)
  from body ne have "ends_line body" by (rule formatGroupedIssues_weeports_ends_line)
  moreover have "\<not> prefix CRLF ?title" by (simp add: CRLF_def CR_def)
  moreover have "length ?title \<ge> 2" by simp
  ultimately show "well_formed_section s" unfolding s by (rule well_formed_sectionI)
qed

lemma formatToCloseThisWeekIssues_weeports_shape:
  assumes fetch: "fetchToCloseThisWeekIssues_weeports up config = Inr issues"
    and ok: "formatToCloseThisWeekIssues_weeports up config visit = Inr s"
  shows "(issues = [] \<longrightarrow> s = [])
         \<and> (issues \<noteq> [] \<and> range_order (groupIssuesByProject issues) visit
            \<longrightarrow> well_formed_section s)"
proof (intro conjI impI)
  assume "issues = []"
  with fetch ok show "s = []" by (simp add: formatToCloseThisWeekIssues_weeports_def)
next
  assume a: "issues \<noteq> [] \<and> range_order (groupIssuesByProject issues) visit"
  then have ne: "\<exists>grp \<in> set visit. map_index [] (groupIssuesByProject issues) grp \<noteq> []"
    by (simp add: groupIssuesByProject_visit_nonempty)
  then have g: "groupIssuesByProject issues \<noteq> []"
    by (auto simp: map_index_def)
  let ?title = "''Issues to close this week:'' @ CRLF @ CRLF"
  from fetch ok a g obtain body where
    body: "formatGroupedIssues_weeports up visit (groupIssuesByProject issues) = Inr body"
    and s: "s = ?title @ body @ CRLF"
    by (auto simp: formatToCloseThisWeekIssues_weeports_def Let_def split: sum.splits)
  from body ne have "ends_line body" by (rule formatGroupedIssues_weeports_ends_line)
  moreover have "\<not> prefix CRLF ?title" by (simp add: CRLF_def CR_def)
  moreover have "length ?title \<ge> 2" by simp
  ultimately show "well_formed_section s" unfolding s by (rule well_formed_sectionI)
qed


lemma groupIssuesByProject_empty_iff:
  "groupIssuesByProject issues = [] \<longleftrightarrow> issues = []"
proof
  assume g: "groupIssuesByProject issues = []"
  show "issues = []"
  proof (rule ccontr)
    assume "issues \<noteq> []"
    then obtain issue rest where "issues = issue # rest" by (cases issues) auto
    then have "map_of (groupIssuesByProject issues) (ProjectID issue) \<noteq> None"
      by (simp add: groupIssuesByProject_map_of)
    with g show False by simp
  qed
next
  assume "issues = []"
  then show "groupIssuesByProject issues = []" by (simp add: groupIssuesByProject_def)
qed

lemma range_order_mset:
  assumes "range_order m visit" and "range_order m visit'"
  shows "mset visit = mset visit'"
proof -
  from assms have "distinct visit" "distinct visit'" "set visit = set visit'"
    by (simp_all add: range_order_def)
  then show ?thesis by (simp only: set_eq_iff_mset_eq_distinct)
qed

text \<open>
  What the loops return, written with the texts of one issue and of one project.
\<close>

lemma formatGroupedIssues_weeports_inner_text:
  "formatGroupedIssues_weeports_inner issueGroup issueStr
   = issueStr @ concat (map issueText_weeports issueGroup)"
proof (induction issueGroup arbitrary: issueStr)
  case Nil
  then show ?case by simp
next
  case (Cons issue issueGroup)
  show ?case
    by (cases "DueDate issue") (simp_all add: Let_def Cons.IH)
qed

lemma formatGroupedIssues_inner_text:
  "formatGroupedIssues_inner up issueGroup issueStr = Inr s
   \<Longrightarrow> s = issueStr @ concat (map (issueText up) issueGroup)"
proof (induction issueGroup arbitrary: issueStr)
  case Nil
  then show ?case by simp
next
  case (Cons issue issueGroup)
  show ?case
  proof (cases "fetchIssueLastMergeRequest up issue")
    case (Inl e)
    with Cons.prems show ?thesis by (simp add: Let_def)
  next
    case (Inr found)
    show ?thesis
    proof (cases found)
      case None
      with Inr Cons.prems show ?thesis
        by (cases "DueDate issue") (auto simp: Let_def dest!: Cons.IH)
    next
      case (Some mergeRequest)
      with Inr Cons.prems show ?thesis
        by (cases "DueDate issue") (auto simp: Let_def dest!: Cons.IH)
    qed
  qed
qed

lemma formatGroupedIssues_outer_text:
  assumes "formatGroupedIssues_outer up projectNameMap groupedIssues visit issuesStrs = Inr strs"
  shows "strs = issuesStrs
           @ map (projectBlock up projectNameMap groupedIssues)
               (filter (\<lambda>grp. map_index [] groupedIssues grp \<noteq> []) visit)"
proof -
  let ?hdr = "\<lambda>grp. ''#### '' @ map_index [] projectNameMap grp @ '':'' @ CRLF"
  have "projr (formatGroupedIssues_inner up (map_index [] groupedIssues grp) (?hdr grp))
        = projectBlock up projectNameMap groupedIssues grp" if "grp \<in> set visit" for grp
  proof -
    from formatGroupedIssues_inner_block [OF assms that] obtain b where
      b: "formatGroupedIssues_inner up (map_index [] groupedIssues grp) (?hdr grp) = Inr b"
      by blast
    from formatGroupedIssues_inner_text [OF b] b show ?thesis by simp
  qed
  then have "map (\<lambda>grp. projr (formatGroupedIssues_inner up (map_index [] groupedIssues grp)
                 (?hdr grp)))
               (filter (\<lambda>grp. map_index [] groupedIssues grp \<noteq> []) visit)
        = map (projectBlock up projectNameMap groupedIssues)
               (filter (\<lambda>grp. map_index [] groupedIssues grp \<noteq> []) visit)"
    by (intro map_cong refl) simp
  with formatGroupedIssues_outer_blocks [OF assms] show ?thesis by simp
qed

lemma formatGroupedIssues_isl:
  "isl (formatGroupedIssues up visit groupedIssues)
   = (isl (fetchProjectNameMap up)
      \<or> (\<exists>grp \<in> set visit. \<exists>issue \<in> set (map_index [] groupedIssues grp).
            isl (fetchIssueLastMergeRequest up issue)))"
proof (cases "fetchProjectNameMap up")
  case (Inl e)
  then show ?thesis by (simp add: formatGroupedIssues_def)
next
  case (Inr names)
  have "isl (formatGroupedIssues up visit groupedIssues)
        = isl (formatGroupedIssues_outer up names groupedIssues visit [])"
    by (simp add: formatGroupedIssues_def Inr split: sum.splits)
  then show ?thesis by (simp add: Inr formatGroupedIssues_outer_isl)
qed

lemma formatGroupedIssues_text:
  assumes "formatGroupedIssues up visit groupedIssues = Inr text"
  shows "\<exists>projectNameMap. fetchProjectNameMap up = Inr projectNameMap
           \<and> text = concat (map (projectBlock up projectNameMap groupedIssues)
                       (filter (\<lambda>grp. map_index [] groupedIssues grp \<noteq> []) visit))"
proof -
  from assms obtain projectNameMap strs where
    n: "fetchProjectNameMap up = Inr projectNameMap"
    and o: "formatGroupedIssues_outer up projectNameMap groupedIssues visit [] = Inr strs"
    and t: "text = concat strs"
    by (auto simp: formatGroupedIssues_def split: sum.splits)
  from formatGroupedIssues_outer_text [OF o] t n show ?thesis by simp
qed

lemma formatGroupedIssues_weeports_text:
  "formatGroupedIssues_weeports up visit groupedIssues
   = (case fetchProjectNameMap up of
        Inl e \<Rightarrow> Inl e
      | Inr projectNameMap \<Rightarrow>
          Inr (concat (map (projectBlock_weeports projectNameMap groupedIssues)
                 (filter (\<lambda>grp. map_index [] groupedIssues grp \<noteq> []) visit))))"
  by (simp add: formatGroupedIssues_weeports_def formatGroupedIssues_weeports_outer_blocks
      formatGroupedIssues_weeports_inner_text split: sum.splits)

lemma formatGroupedIssues_text_permuted:
  assumes v: "set visit' = set visit"
    and ok: "formatGroupedIssues up visit groupedIssues = Inr text"
  shows "\<exists>projectNameMap. fetchProjectNameMap up = Inr projectNameMap
           \<and> text = concat (map (projectBlock up projectNameMap groupedIssues)
                       (filter (\<lambda>grp. map_index [] groupedIssues grp \<noteq> []) visit))
           \<and> formatGroupedIssues up visit' groupedIssues
               = Inr (concat (map (projectBlock up projectNameMap groupedIssues)
                       (filter (\<lambda>grp. map_index [] groupedIssues grp \<noteq> []) visit')))"
proof -
  from formatGroupedIssues_text [OF ok] obtain projectNameMap where
    n: "fetchProjectNameMap up = Inr projectNameMap"
    and t: "text = concat (map (projectBlock up projectNameMap groupedIssues)
                       (filter (\<lambda>grp. map_index [] groupedIssues grp \<noteq> []) visit))"
    by blast
  from ok have "\<not> isl (formatGroupedIssues up visit groupedIssues)" by simp
  then have "\<not> isl (formatGroupedIssues up visit' groupedIssues)"
    unfolding formatGroupedIssues_isl v .
  then obtain text' where ok': "formatGroupedIssues up visit' groupedIssues = Inr text'"
    by (cases "formatGroupedIssues up visit' groupedIssues") simp_all
  from formatGroupedIssues_text [OF ok'] n
  have "text' = concat (map (projectBlock up projectNameMap groupedIssues)
                       (filter (\<lambda>grp. map_index [] groupedIssues grp \<noteq> []) visit'))"
    by simp
  with n t ok' show ?thesis by blast
qed

lemma groupIssuesByProject_keys_nonempty:
  assumes "range_order (groupIssuesByProject issues) visit"
  shows "filter (\<lambda>grp. map_index [] (groupIssuesByProject issues) grp \<noteq> []) visit = visit"
proof -
  have "map_index [] (groupIssuesByProject issues) grp \<noteq> []" if "grp \<in> set visit" for grp
  proof -
    from that assms obtain issueGroup where
      e: "(grp, issueGroup) \<in> set (groupIssuesByProject issues)"
      by (auto simp: range_order_def)
    then have "map_of (groupIssuesByProject issues) grp = Some issueGroup"
      by (simp add: groupIssuesByProject_distinct)
    moreover from groupIssuesByProject_entry [OF e] have "issueGroup \<noteq> []" by blast
    ultimately show ?thesis by (simp add: map_index_def)
  qed
  then show ?thesis by (simp add: filter_id_conv)
qed

text \<open>
  The four section formatters under two range orders of the grouping: the section is the
  title, the blocks of the projects in the order visited, and an empty line.
\<close>

lemma formatClosedLastWeeksIssues_text_permuted:
  assumes fetch: "fetchClosedLastWeeksIssues up config weeks = Inr issues"
    and v: "range_order (groupIssuesByProject issues) visit"
    and v': "range_order (groupIssuesByProject issues) visit'"
    and ok: "formatClosedLastWeeksIssues up config weeks visit = Inr s"
  shows "((issues = [] \<and> s = [] \<and> formatClosedLastWeeksIssues up config weeks visit' = Inr [])
          \<or> (\<exists>projectNameMap. fetchProjectNameMap up = Inr projectNameMap
                \<and> s = ''### Issues closed ''
          @ (if weeks > 1 then ''in the last '' @ itoa weeks @ '' weeks'' else ''last week'')
          @ '':'' @ CRLF @ CRLF
                    @ concat (map (projectBlock up projectNameMap (groupIssuesByProject issues)) visit) @ CRLF
                \<and> formatClosedLastWeeksIssues up config weeks visit'
                    = Inr (''### Issues closed ''
          @ (if weeks > 1 then ''in the last '' @ itoa weeks @ '' weeks'' else ''last week'')
          @ '':'' @ CRLF @ CRLF
                           @ concat (map (projectBlock up projectNameMap (groupIssuesByProject issues)) visit') @ CRLF)))"
proof (cases "issues = []")
  case True
  with fetch ok show ?thesis by (simp add: formatClosedLastWeeksIssues_def)
next
  case False
  then have g: "groupIssuesByProject issues \<noteq> []"
    by (simp add: groupIssuesByProject_empty_iff)
  let ?title = "''### Issues closed ''
          @ (if weeks > 1 then ''in the last '' @ itoa weeks @ '' weeks'' else ''last week'')
          @ '':'' @ CRLF @ CRLF"
  from fetch ok False g obtain body where
    body: "formatGroupedIssues up visit (groupIssuesByProject issues) = Inr body"
    and s: "s = ?title @ body @ CRLF"
    by (auto simp: formatClosedLastWeeksIssues_def Let_def split: sum.splits)
  from v v' have "set visit' = set visit" by (simp add: range_order_def)
  from formatGroupedIssues_text_permuted [OF this body]
  obtain projectNameMap where n: "fetchProjectNameMap up = Inr projectNameMap"
    and b: "body = concat (map (projectBlock up projectNameMap (groupIssuesByProject issues))
          (filter (\<lambda>grp. map_index [] (groupIssuesByProject issues) grp \<noteq> []) visit))"
    and b': "formatGroupedIssues up visit' (groupIssuesByProject issues)
      = Inr (concat (map (projectBlock up projectNameMap (groupIssuesByProject issues))
          (filter (\<lambda>grp. map_index [] (groupIssuesByProject issues) grp \<noteq> []) visit')))"
    by blast
  note k = groupIssuesByProject_keys_nonempty [OF v]
    groupIssuesByProject_keys_nonempty [OF v']
  have 1: "s = ''### Issues closed ''
          @ (if weeks > 1 then ''in the last '' @ itoa weeks @ '' weeks'' else ''last week'')
          @ '':'' @ CRLF @ CRLF
      @ concat (map (projectBlock up projectNameMap (groupIssuesByProject issues)) visit) @ CRLF"
    unfolding s b by (simp only: k append_assoc)
  have b2: "formatGroupedIssues up visit' (groupIssuesByProject issues)
      = Inr (concat (map (projectBlock up projectNameMap (groupIssuesByProject issues)) visit'))"
    using b' by (simp only: k)
  from fetch False g have 2: "formatClosedLastWeeksIssues up config weeks visit'
      = Inr (''### Issues closed ''
          @ (if weeks > 1 then ''in the last '' @ itoa weeks @ '' weeks'' else ''last week'')
          @ '':'' @ CRLF @ CRLF
           @ concat (map (projectBlock up projectNameMap (groupIssuesByProject issues)) visit') @ CRLF)"
    by (simp add: formatClosedLastWeeksIssues_def Let_def b2)
  show ?thesis
    by (rule disjI2, rule exI [of _ projectNameMap], intro conjI, rule n, rule 1, rule 2)
qed

lemma formatToCloseThisWeekIssues_text_permuted:
  assumes fetch: "fetchToCloseThisWeekIssues up config = Inr issues"
    and v: "range_order (groupIssuesByProject issues) visit"
    and v': "range_order (groupIssuesByProject issues) visit'"
    and ok: "formatToCloseThisWeekIssues up config visit = Inr s"
  shows "((issues = [] \<and> s = [] \<and> formatToCloseThisWeekIssues up config visit' = Inr [])
          \<or> (\<exists>projectNameMap. fetchProjectNameMap up = Inr projectNameMap
                \<and> s = ''### Issues to close this week:'' @ CRLF @ CRLF
                    @ concat (map (projectBlock up projectNameMap (groupIssuesByProject issues)) visit) @ CRLF
                \<and> formatToCloseThisWeekIssues up config visit'
                    = Inr (''### Issues to close this week:'' @ CRLF @ CRLF
                           @ concat (map (projectBlock up projectNameMap (groupIssuesByProject issues)) visit') @ CRLF)))"
proof (cases "issues = []")
  case True
  with fetch ok show ?thesis by (simp add: formatToCloseThisWeekIssues_def)
next
  case False
  then have g: "groupIssuesByProject issues \<noteq> []"
    by (simp add: groupIssuesByProject_empty_iff)
  let ?title = "''### Issues to close this week:'' @ CRLF @ CRLF"
  from fetch ok False g obtain body where
    body: "formatGroupedIssues up visit (groupIssuesByProject issues) = Inr body"
    and s: "s = ?title @ body @ CRLF"
    by (auto simp: formatToCloseThisWeekIssues_def Let_def split: sum.splits)
  from v v' have "set visit' = set visit" by (simp add: range_order_def)
  from formatGroupedIssues_text_permuted [OF this body]
  obtain projectNameMap where n: "fetchProjectNameMap up = Inr projectNameMap"
    and b: "body = concat (map (projectBlock up projectNameMap (groupIssuesByProject issues))
          (filter (\<lambda>grp. map_index [] (groupIssuesByProject issues) grp \<noteq> []) visit))"
    and b': "formatGroupedIssues up visit' (groupIssuesByProject issues)
      = Inr (concat (map (projectBlock up projectNameMap (groupIssuesByProject issues))
          (filter (\<lambda>grp. map_index [] (groupIssuesByProject issues) grp \<noteq> []) visit')))"
    by blast
  note k = groupIssuesByProject_keys_nonempty [OF v]
    groupIssuesByProject_keys_nonempty [OF v']
  have 1: "s = ''### Issues to close this week:'' @ CRLF @ CRLF
      @ concat (map (projectBlock up projectNameMap (groupIssuesByProject issues)) visit) @ CRLF"
    unfolding s b by (simp only: k append_assoc)
  have b2: "formatGroupedIssues up visit' (groupIssuesByProject issues)
      = Inr (concat (map (projectBlock up projectNameMap (groupIssuesByProject issues)) visit'))"
    using b' by (simp only: k)
  from fetch False g have 2: "formatToCloseThisWeekIssues up config visit'
      = Inr (''### Issues to close this week:'' @ CRLF @ CRLF
           @ concat (map (projectBlock up projectNameMap (groupIssuesByProject issues)) visit') @ CRLF)"
    by (simp add: formatToCloseThisWeekIssues_def Let_def b2)
  show ?thesis
    by (rule disjI2, rule exI [of _ projectNameMap], intro conjI, rule n, rule 1, rule 2)
qed

lemma formatClosedLastWeekIssues_text_permuted:
  assumes fetch: "fetchClosedLastWeekIssues up config = Inr issues"
    and v: "range_order (groupIssuesByProject issues) visit"
    and v': "range_order (groupIssuesByProject issues) visit'"
    and ok: "formatClosedLastWeekIssues up config visit = Inr s"
  shows "((issues = [] \<and> s = [] \<and> formatClosedLastWeekIssues up config visit' = Inr [])
          \<or> (\<exists>projectNameMap. fetchProjectNameMap up = Inr projectNameMap
                \<and> s = ''Issues closed last week:'' @ CRLF @ CRLF
                    @ concat (map (projectBlock_weeports projectNameMap (groupIssuesByProject issues)) visit) @ CRLF
                \<and> formatClosedLastWeekIssues up config visit'
                    = Inr (''Issues closed last week:'' @ CRLF @ CRLF
                           @ concat (map (projectBlock_weeports projectNameMap (groupIssuesByProject issues)) visit') @ CRLF)))"
proof (cases "issues = []")
  case True
  with fetch ok show ?thesis by (simp add: formatClosedLastWeekIssues_def)
next
  case False
  then have g: "groupIssuesByProject issues \<noteq> []"
    by (simp add: groupIssuesByProject_empty_iff)
  let ?title = "''Issues closed last week:'' @ CRLF @ CRLF"
  from fetch ok False g obtain body where
    body: "formatGroupedIssues_weeports up visit (groupIssuesByProject issues) = Inr body"
    and s: "s = ?title @ body @ CRLF"
    by (auto simp: formatClosedLastWeekIssues_def Let_def split: sum.splits)
  from formatGroupedIssues_weeports_text [of up visit "groupIssuesByProject issues"] body
  obtain projectNameMap where n: "fetchProjectNameMap up = Inr projectNameMap"
    and b: "body = concat (map (projectBlock_weeports projectNameMap (groupIssuesByProject issues))
          (filter (\<lambda>grp. map_index [] (groupIssuesByProject issues) grp \<noteq> []) visit))"
    by (auto split: sum.splits)
  from n have b': "formatGroupedIssues_weeports up visit' (groupIssuesByProject issues)
      = Inr (concat (map (projectBlock_weeports projectNameMap (groupIssuesByProject issues))
          (filter (\<lambda>grp. map_index [] (groupIssuesByProject issues) grp \<noteq> []) visit')))"
    by (simp add: formatGroupedIssues_weeports_text)
  note k = groupIssuesByProject_keys_nonempty [OF v]
    groupIssuesByProject_keys_nonempty [OF v']
  have 1: "s = ''Issues closed last week:'' @ CRLF @ CRLF
      @ concat (map (projectBlock_weeports projectNameMap (groupIssuesByProject issues)) visit) @ CRLF"
    unfolding s b by (simp only: k append_assoc)
  have b2: "formatGroupedIssues_weeports up visit' (groupIssuesByProject issues)
      = Inr (concat (map (projectBlock_weeports projectNameMap (groupIssuesByProject issues)) visit'))"
    using b' by (simp only: k)
  from fetch False g have 2: "formatClosedLastWeekIssues up config visit'
      = Inr (''Issues closed last week:'' @ CRLF @ CRLF
           @ concat (map (projectBlock_weeports projectNameMap (groupIssuesByProject issues)) visit') @ CRLF)"
    by (simp add: formatClosedLastWeekIssues_def Let_def b2)
  show ?thesis
    by (rule disjI2, rule exI [of _ projectNameMap], intro conjI, rule n, rule 1, rule 2)
qed

lemma formatToCloseThisWeekIssues_weeports_text_permuted:
  assumes fetch: "fetchToCloseThisWeekIssues_weeports up config = Inr issues"
    and v: "range_order (groupIssuesByProject issues) visit"
    and v': "range_order (groupIssuesByProject issues) visit'"
    and ok: "formatToCloseThisWeekIssues_weeports up config visit = Inr s"
  shows "((issues = [] \<and> s = [] \<and> formatToCloseThisWeekIssues_weeports up config visit' = Inr [])
          \<or> (\<exists>projectNameMap. fetchProjectNameMap up = Inr projectNameMap
                \<and> s = ''Issues to close this week:'' @ CRLF @ CRLF
                    @ concat (map (projectBlock_weeports projectNameMap (groupIssuesByProject issues)) visit) @ CRLF
                \<and> formatToCloseThisWeekIssues_weeports up config visit'
                    = Inr (''Issues to close this week:'' @ CRLF @ CRLF
                           @ concat (map (projectBlock_weeports projectNameMap (groupIssuesByProject issues)) visit') @ CRLF)))"
proof (cases "issues = []")
  case True
  with fetch ok show ?thesis by (simp add: formatToCloseThisWeekIssues_weeports_def)
next
  case False
  then have g: "groupIssuesByProject issues \<noteq> []"
    by (simp add: groupIssuesByProject_empty_iff)
  let ?title = "''Issues to close this week:'' @ CRLF @ CRLF"
  from fetch ok False g obtain body where
    body: "formatGroupedIssues_weeports up visit (groupIssuesByProject issues) = Inr body"
    and s: "s = ?title @ body @ CRLF"
    by (auto simp: formatToCloseThisWeekIssues_weeports_def Let_def split: sum.splits)
  from formatGroupedIssues_weeports_text [of up visit "groupIssuesByProject issues"] body
  obtain projectNameMap where n: "fetchProjectNameMap up = Inr projectNameMap"
    and b: "body = concat (map (projectBlock_weeports projectNameMap (groupIssuesByProject issues))
          (filter (\<lambda>grp. map_index [] (groupIssuesByProject issues) grp \<noteq> []) visit))"
    by (auto split: sum.splits)
  from n have b': "formatGroupedIssues_weeports up visit' (groupIssuesByProject issues)
      = Inr (concat (map (projectBlock_weeports projectNameMap (groupIssuesByProject issues))
          (filter (\<lambda>grp. map_index [] (groupIssuesByProject issues) grp \<noteq> []) visit')))"
    by (simp add: formatGroupedIssues_weeports_text)
  note k = groupIssuesByProject_keys_nonempty [OF v]
    groupIssuesByProject_keys_nonempty [OF v']
  have 1: "s = ''Issues to close this week:'' @ CRLF @ CRLF
      @ concat (map (projectBlock_weeports projectNameMap (groupIssuesByProject issues)) visit) @ CRLF"
    unfolding s b by (simp only: k append_assoc)
  have b2: "formatGroupedIssues_weeports up visit' (groupIssuesByProject issues)
      = Inr (concat (map (projectBlock_weeports projectNameMap (groupIssuesByProject issues)) visit'))"
    using b' by (simp only: k)
  from fetch False g have 2: "formatToCloseThisWeekIssues_weeports up config visit'
      = Inr (''Issues to close this week:'' @ CRLF @ CRLF
           @ concat (map (projectBlock_weeports projectNameMap (groupIssuesByProject issues)) visit') @ CRLF)"
    by (simp add: formatToCloseThisWeekIssues_weeports_def Let_def b2)
  show ?thesis
    by (rule disjI2, rule exI [of _ projectNameMap], intro conjI, rule n, rule 1, rule 2)
qed

text \<open>
  C5: \<open>renderSection\<close>, for the closed issues and for the issues to close, in both
  snapshots. When the issues fetched group into no project, the section is the empty
  string. When they group into at least one project, and the loop over the map visits
  its keys in a range order, the section does not begin with a blank line and ends with
  exactly one blank line.
\<close>

theorem renderSection_shape:
  "(fetchClosedLastWeeksIssues up config weeks = Inr closed
      \<and> formatClosedLastWeeksIssues up config weeks visit = Inr closedText
    \<longrightarrow> (groupIssuesByProject closed = [] \<longrightarrow> closedText = [])
        \<and> (groupIssuesByProject closed \<noteq> []
             \<and> range_order (groupIssuesByProject closed) visit
           \<longrightarrow> well_formed_section closedText))
   \<and> (fetchToCloseThisWeekIssues up config = Inr due
      \<and> formatToCloseThisWeekIssues up config visit = Inr dueText
    \<longrightarrow> (groupIssuesByProject due = [] \<longrightarrow> dueText = [])
        \<and> (groupIssuesByProject due \<noteq> []
             \<and> range_order (groupIssuesByProject due) visit
           \<longrightarrow> well_formed_section dueText))
   \<and> (fetchClosedLastWeekIssues up config = Inr closed'
      \<and> formatClosedLastWeekIssues up config visit = Inr closedText'
    \<longrightarrow> (groupIssuesByProject closed' = [] \<longrightarrow> closedText' = [])
        \<and> (groupIssuesByProject closed' \<noteq> []
             \<and> range_order (groupIssuesByProject closed') visit
           \<longrightarrow> well_formed_section closedText'))
   \<and> (fetchToCloseThisWeekIssues_weeports up config = Inr due'
      \<and> formatToCloseThisWeekIssues_weeports up config visit = Inr dueText'
    \<longrightarrow> (groupIssuesByProject due' = [] \<longrightarrow> dueText' = [])
        \<and> (groupIssuesByProject due' \<noteq> []
             \<and> range_order (groupIssuesByProject due') visit
           \<longrightarrow> well_formed_section dueText'))"
  using formatClosedLastWeeksIssues_shape [of up config weeks closed visit closedText]
    formatToCloseThisWeekIssues_shape [of up config due visit dueText]
    formatClosedLastWeekIssues_shape [of up config closed' visit closedText']
    formatToCloseThisWeekIssues_weeports_shape [of up config due' visit dueText']
  unfolding groupIssuesByProject_empty_iff
  by blast

theorem renderSection_shape_witness:
  "fetchClosedLastWeeksIssues ex_service ex_config 2 = Inr ex_issues
   \<and> fetchToCloseThisWeekIssues ex_service ex_config = Inr ex_issues
   \<and> fetchClosedLastWeekIssues ex_service ex_config = Inr ex_issues
   \<and> fetchToCloseThisWeekIssues_weeports ex_service ex_config = Inr ex_issues
   \<and> groupIssuesByProject ex_issues \<noteq> []
   \<and> range_order (groupIssuesByProject ex_issues) [11, 10]
   \<and> formatClosedLastWeeksIssues ex_service ex_config 2 [11, 10]
     = Inr (''### Issues closed in the last 2 weeks:'' @ CRLF @ CRLF
            @ ''#### :'' @ CRLF
            @ ''  * [Write docs](https://git.domain.com/issues/2)'' @ CRLF
            @ ''    * Due date: 2024-03-15'' @ CRLF
            @ ''#### weeports:'' @ CRLF
            @ ''  * [Fix 42](https://git.domain.com/issues/1)'' @ CRLF
            @ ''    * Merge request: [Draft: fix-42](https://git.domain.com/merge_requests/1)''
            @ CRLF @ CRLF)
   \<and> well_formed_section
       (''### Issues closed in the last 2 weeks:'' @ CRLF @ CRLF
            @ ''#### :'' @ CRLF
            @ ''  * [Write docs](https://git.domain.com/issues/2)'' @ CRLF
            @ ''    * Due date: 2024-03-15'' @ CRLF
            @ ''#### weeports:'' @ CRLF
            @ ''  * [Fix 42](https://git.domain.com/issues/1)'' @ CRLF
            @ ''    * Merge request: [Draft: fix-42](https://git.domain.com/merge_requests/1)''
            @ CRLF @ CRLF)
   \<and> \<not> isl (formatToCloseThisWeekIssues ex_service ex_config [11, 10])
   \<and> well_formed_section (projr (formatToCloseThisWeekIssues ex_service ex_config [11, 10]))
   \<and> formatClosedLastWeekIssues ex_service ex_config [11, 10]
     = Inr (''Issues closed last week:'' @ CRLF @ CRLF
            @ ''* :'' @ CRLF
            @ [TAB] @ ''* [Write docs](https://git.domain.com/issues/2)'' @ CRLF
            @ [TAB, TAB] @ ''* Due date: 2024-03-15'' @ CRLF
            @ ''* weeports:'' @ CRLF
            @ [TAB] @ ''* [Fix 42](https://git.domain.com/issues/1)'' @ CRLF
            @ CRLF)
   \<and> well_formed_section
       (''Issues closed last week:'' @ CRLF @ CRLF
            @ ''* :'' @ CRLF
            @ [TAB] @ ''* [Write docs](https://git.domain.com/issues/2)'' @ CRLF
            @ [TAB, TAB] @ ''* Due date: 2024-03-15'' @ CRLF
            @ ''* weeports:'' @ CRLF
            @ [TAB] @ ''* [Fix 42](https://git.domain.com/issues/1)'' @ CRLF
            @ CRLF)
   \<and> \<not> isl (formatToCloseThisWeekIssues_weeports ex_service ex_config [11, 10])
   \<and> well_formed_section
       (projr (formatToCloseThisWeekIssues_weeports ex_service ex_config [11, 10]))"
proof -
  let ?closedText = "''### Issues closed in the last 2 weeks:'' @ CRLF @ CRLF
            @ ''#### :'' @ CRLF
            @ ''  * [Write docs](https://git.domain.com/issues/2)'' @ CRLF
            @ ''    * Due date: 2024-03-15'' @ CRLF
            @ ''#### weeports:'' @ CRLF
            @ ''  * [Fix 42](https://git.domain.com/issues/1)'' @ CRLF
            @ ''    * Merge request: [Draft: fix-42](https://git.domain.com/merge_requests/1)''
            @ CRLF @ CRLF"
  let ?closedText' = "''Issues closed last week:'' @ CRLF @ CRLF
            @ ''* :'' @ CRLF
            @ [TAB] @ ''* [Write docs](https://git.domain.com/issues/2)'' @ CRLF
            @ [TAB, TAB] @ ''* Due date: 2024-03-15'' @ CRLF
            @ ''* weeports:'' @ CRLF
            @ [TAB] @ ''* [Fix 42](https://git.domain.com/issues/1)'' @ CRLF
            @ CRLF"
  let ?dueText = "projr (formatToCloseThisWeekIssues ex_service ex_config [11, 10])"
  let ?dueText' = "projr (formatToCloseThisWeekIssues_weeports ex_service ex_config [11, 10])"
  have f1: "fetchClosedLastWeeksIssues ex_service ex_config 2 = Inr ex_issues" by code_simp
  have f2: "fetchToCloseThisWeekIssues ex_service ex_config = Inr ex_issues" by code_simp
  have f3: "fetchClosedLastWeekIssues ex_service ex_config = Inr ex_issues" by code_simp
  have f4: "fetchToCloseThisWeekIssues_weeports ex_service ex_config = Inr ex_issues"
    by code_simp
  have ne: "groupIssuesByProject ex_issues \<noteq> []" by code_simp
  have ro: "range_order (groupIssuesByProject ex_issues) [11, 10]" by code_simp
  have t1: "formatClosedLastWeeksIssues ex_service ex_config 2 [11, 10] = Inr ?closedText"
    by code_simp
  have t2: "\<not> isl (formatToCloseThisWeekIssues ex_service ex_config [11, 10])" by code_simp
  have t3: "formatClosedLastWeekIssues ex_service ex_config [11, 10] = Inr ?closedText'"
    by code_simp
  have t4: "\<not> isl (formatToCloseThisWeekIssues_weeports ex_service ex_config [11, 10])"
    by code_simp
  from t2 have t2': "formatToCloseThisWeekIssues ex_service ex_config [11, 10] = Inr ?dueText"
    by (cases "formatToCloseThisWeekIssues ex_service ex_config [11, 10]") simp_all
  from t4 have t4': "formatToCloseThisWeekIssues_weeports ex_service ex_config [11, 10]
      = Inr ?dueText'"
    by (cases "formatToCloseThisWeekIssues_weeports ex_service ex_config [11, 10]") simp_all
  from renderSection_shape [of ex_service ex_config 2 ex_issues "[11, 10]" ?closedText
      ex_issues ?dueText ex_issues ?closedText' ex_issues ?dueText']
    f1 f2 f3 f4 ne ro t1 t2' t3 t4'
  have "well_formed_section ?closedText \<and> well_formed_section ?dueText
        \<and> well_formed_section ?closedText' \<and> well_formed_section ?dueText'"
    by blast
  with f1 f2 f3 f4 ne ro t1 t2 t3 t4 show ?thesis by blast
qed

text \<open>
  C7: a project identifier that has no entry in the project-name mapping. The lookup
  yields the empty string. The text returned by \<^verbatim>\<open>formatGroupedIssues\<close> is the
  concatenation, over the projects visited that have issues, of the block of each
  project; the block of the project without a name is the heading \<open>#### :\<close> (\<open>* :\<close> in
  \<^verbatim>\<open>src/weeports.go\<close>) followed by the lines of its issues, and every other block is as
  usual. Once the names are fetched, rendering fails only when a merge-request lookup
  fails (in \<^verbatim>\<open>src/weeports.go\<close> it cannot fail), never on the missing name.
\<close>

theorem formatGroupedIssues_missing_project_name:
  assumes n: "fetchProjectNameMap up = Inr projectNameMap"
    and m: "map_of projectNameMap grp = None"
  shows "map_index [] projectNameMap grp = []
   \<and> (formatGroupedIssues up visit groupedIssues = Inr rendered
      \<longrightarrow> rendered = concat (map (\<lambda>k. if k = grp
                   then ''#### :'' @ CRLF @ concat (map (issueText up) (map_index [] groupedIssues k))
                   else projectBlock up projectNameMap groupedIssues k)
             (filter (\<lambda>grp. map_index [] groupedIssues grp \<noteq> []) visit)))
   \<and> formatGroupedIssues_weeports up visit groupedIssues
     = Inr (concat (map (\<lambda>k. if k = grp
                   then ''* :'' @ CRLF @ concat (map issueText_weeports (map_index [] groupedIssues k))
                   else projectBlock_weeports projectNameMap groupedIssues k)
             (filter (\<lambda>grp. map_index [] groupedIssues grp \<noteq> []) visit)))
   \<and> isl (formatGroupedIssues up visit groupedIssues)
     = (\<exists>k \<in> set visit. \<exists>issue \<in> set (map_index [] groupedIssues k).
          isl (fetchIssueLastMergeRequest up issue))
   \<and> \<not> isl (formatGroupedIssues_weeports up visit groupedIssues)"
proof (intro conjI impI)
  from m show name: "map_index [] projectNameMap grp = []"
    by (simp add: map_index_def)
  have blk: "(\<lambda>k. if k = grp
                   then ''#### :'' @ CRLF @ concat (map (issueText up) (map_index [] groupedIssues k))
                   else projectBlock up projectNameMap groupedIssues k)
             = projectBlock up projectNameMap groupedIssues"
    by (rule ext) (simp add: name)
  have blk': "(\<lambda>k. if k = grp
                   then ''* :'' @ CRLF @ concat (map issueText_weeports (map_index [] groupedIssues k))
                   else projectBlock_weeports projectNameMap groupedIssues k)
             = projectBlock_weeports projectNameMap groupedIssues"
    by (rule ext) (simp add: name)
  show "rendered = concat (map (\<lambda>k. if k = grp
                   then ''#### :'' @ CRLF @ concat (map (issueText up) (map_index [] groupedIssues k))
                   else projectBlock up projectNameMap groupedIssues k)
             (filter (\<lambda>grp. map_index [] groupedIssues grp \<noteq> []) visit))"
    if "formatGroupedIssues up visit groupedIssues = Inr rendered"
    unfolding blk using formatGroupedIssues_text [OF that] n by auto
  show "formatGroupedIssues_weeports up visit groupedIssues
     = Inr (concat (map (\<lambda>k. if k = grp
                   then ''* :'' @ CRLF @ concat (map issueText_weeports (map_index [] groupedIssues k))
                   else projectBlock_weeports projectNameMap groupedIssues k)
             (filter (\<lambda>grp. map_index [] groupedIssues grp \<noteq> []) visit)))"
    unfolding blk' by (simp add: formatGroupedIssues_weeports_text n)
  show "isl (formatGroupedIssues up visit groupedIssues)
     = (\<exists>k \<in> set visit. \<exists>issue \<in> set (map_index [] groupedIssues k).
          isl (fetchIssueLastMergeRequest up issue))"
    by (simp add: formatGroupedIssues_isl n)
  show "\<not> isl (formatGroupedIssues_weeports up visit groupedIssues)"
    by (simp add: formatGroupedIssues_weeports_text n)
qed

theorem formatGroupedIssues_missing_project_name_witness:
  "fetchProjectNameMap ex_service = Inr [(10, ''weeports'')]
   \<and> map_of [(10, ''weeports'')] (11::int) = None
   \<and> formatGroupedIssues ex_service [11, 10] (groupIssuesByProject ex_issues)
     = Inr (''#### :'' @ CRLF
            @ ''  * [Write docs](https://git.domain.com/issues/2)'' @ CRLF
            @ ''    * Due date: 2024-03-15'' @ CRLF
            @ ''#### weeports:'' @ CRLF
            @ ''  * [Fix 42](https://git.domain.com/issues/1)'' @ CRLF
            @ ''    * Merge request: [Draft: fix-42](https://git.domain.com/merge_requests/1)''
            @ CRLF)
   \<and> formatGroupedIssues_weeports ex_service [11, 10] (groupIssuesByProject ex_issues)
     = Inr (''* :'' @ CRLF
            @ [TAB] @ ''* [Write docs](https://git.domain.com/issues/2)'' @ CRLF
            @ [TAB, TAB] @ ''* Due date: 2024-03-15'' @ CRLF
            @ ''* weeports:'' @ CRLF
            @ [TAB] @ ''* [Fix 42](https://git.domain.com/issues/1)'' @ CRLF)
   \<and> map_index [] [(10, ''weeports'')] (11::int) = []
   \<and> (''#### :'' @ CRLF
            @ ''  * [Write docs](https://git.domain.com/issues/2)'' @ CRLF
            @ ''    * Due date: 2024-03-15'' @ CRLF
            @ ''#### weeports:'' @ CRLF
            @ ''  * [Fix 42](https://git.domain.com/issues/1)'' @ CRLF
            @ ''    * Merge request: [Draft: fix-42](https://git.domain.com/merge_requests/1)''
            @ CRLF)
     = concat (map (\<lambda>k. if k = 11
                   then ''#### :'' @ CRLF @ concat (map (issueText ex_service) (map_index [] (groupIssuesByProject ex_issues) k))
                   else projectBlock ex_service [(10, ''weeports'')] (groupIssuesByProject ex_issues) k)
             (filter (\<lambda>grp. map_index [] (groupIssuesByProject ex_issues) grp \<noteq> []) [11, 10]))
   \<and> formatGroupedIssues_weeports ex_service [11, 10] (groupIssuesByProject ex_issues)
     = Inr (concat (map (\<lambda>k. if k = 11
                   then ''* :'' @ CRLF @ concat (map issueText_weeports (map_index [] (groupIssuesByProject ex_issues) k))
                   else projectBlock_weeports [(10, ''weeports'')] (groupIssuesByProject ex_issues) k)
             (filter (\<lambda>grp. map_index [] (groupIssuesByProject ex_issues) grp \<noteq> []) [11, 10])))
   \<and> isl (formatGroupedIssues ex_service [11, 10] (groupIssuesByProject ex_issues))
     = (\<exists>k \<in> set [11, 10]. \<exists>issue \<in> set (map_index [] (groupIssuesByProject ex_issues) k).
          isl (fetchIssueLastMergeRequest ex_service issue))
   \<and> \<not> isl (formatGroupedIssues_weeports ex_service [11, 10] (groupIssuesByProject ex_issues))"
proof -
  have n: "fetchProjectNameMap ex_service = Inr [(10, ''weeports'')]" by code_simp
  have m: "map_of [(10, ''weeports'')] (11::int) = None" by simp
  have t: "formatGroupedIssues ex_service [11, 10] (groupIssuesByProject ex_issues)
     = Inr (''#### :'' @ CRLF
            @ ''  * [Write docs](https://git.domain.com/issues/2)'' @ CRLF
            @ ''    * Due date: 2024-03-15'' @ CRLF
            @ ''#### weeports:'' @ CRLF
            @ ''  * [Fix 42](https://git.domain.com/issues/1)'' @ CRLF
            @ ''    * Merge request: [Draft: fix-42](https://git.domain.com/merge_requests/1)''
            @ CRLF)" by code_simp
  have tw: "formatGroupedIssues_weeports ex_service [11, 10] (groupIssuesByProject ex_issues)
     = Inr (''* :'' @ CRLF
            @ [TAB] @ ''* [Write docs](https://git.domain.com/issues/2)'' @ CRLF
            @ [TAB, TAB] @ ''* Due date: 2024-03-15'' @ CRLF
            @ ''* weeports:'' @ CRLF
            @ [TAB] @ ''* [Fix 42](https://git.domain.com/issues/1)'' @ CRLF)" by code_simp
  note inst = formatGroupedIssues_missing_project_name
    [OF n m, where visit = "[11, 10]" and groupedIssues = "groupIssuesByProject ex_issues"
       and rendered = "''#### :'' @ CRLF
            @ ''  * [Write docs](https://git.domain.com/issues/2)'' @ CRLF
            @ ''    * Due date: 2024-03-15'' @ CRLF
            @ ''#### weeports:'' @ CRLF
            @ ''  * [Fix 42](https://git.domain.com/issues/1)'' @ CRLF
            @ ''    * Merge request: [Draft: fix-42](https://git.domain.com/merge_requests/1)''
            @ CRLF"]
  note c1 = inst [THEN conjunct1]
    and c2 = inst [THEN conjunct2, THEN conjunct1, THEN mp, OF t]
    and c3 = inst [THEN conjunct2, THEN conjunct2, THEN conjunct1]
    and c4 = inst [THEN conjunct2, THEN conjunct2, THEN conjunct2, THEN conjunct1]
    and c5 = inst [THEN conjunct2, THEN conjunct2, THEN conjunct2, THEN conjunct2]
  show ?thesis
    by (intro conjI) (rule n m t tw c1 c2 c3 c4 c5)+
qed

lemma range_order_single:
  assumes "range_order m visit" and "range_order m visit'" and "length m \<le> 1"
  shows "visit' = visit"
proof -
  from assms(1) have "length visit = card (set (map fst m))"
    by (simp add: range_order_def distinct_card [symmetric])
  also have "\<dots> \<le> length (map fst m)" by (rule card_length)
  finally have "length visit \<le> 1" using assms(3) by simp
  moreover from assms(1,2) have "mset visit = mset visit'" by (rule range_order_mset)
  ultimately show ?thesis
    by (cases visit; cases visit') (auto split: if_splits)
qed

text \<open>
  The claim C8 says that two evaluations of the rendering on the same grouping, names and
  merge requests give the same text, the order of the project blocks included. The loop
  ranges over a Go map, so two evaluations may visit the projects in different orders:
  on the example, the two range orders give different texts, in both snapshots, for the
  body and for the whole section.
\<close>

theorem formatGroupedIssues_order_dependent:
  "range_order (groupIssuesByProject ex_issues) [10, 11]
   \<and> range_order (groupIssuesByProject ex_issues) [11, 10]
   \<and> formatGroupedIssues ex_service [10, 11] (groupIssuesByProject ex_issues)
     = Inr (''#### weeports:'' @ CRLF
            @ ''  * [Fix 42](https://git.domain.com/issues/1)'' @ CRLF
            @ ''    * Merge request: [Draft: fix-42](https://git.domain.com/merge_requests/1)''
            @ CRLF
            @ ''#### :'' @ CRLF
            @ ''  * [Write docs](https://git.domain.com/issues/2)'' @ CRLF
            @ ''    * Due date: 2024-03-15'' @ CRLF)
   \<and> formatGroupedIssues ex_service [11, 10] (groupIssuesByProject ex_issues)
     = Inr (''#### :'' @ CRLF
            @ ''  * [Write docs](https://git.domain.com/issues/2)'' @ CRLF
            @ ''    * Due date: 2024-03-15'' @ CRLF
            @ ''#### weeports:'' @ CRLF
            @ ''  * [Fix 42](https://git.domain.com/issues/1)'' @ CRLF
            @ ''    * Merge request: [Draft: fix-42](https://git.domain.com/merge_requests/1)''
            @ CRLF)
   \<and> formatGroupedIssues ex_service [10, 11] (groupIssuesByProject ex_issues)
     \<noteq> formatGroupedIssues ex_service [11, 10] (groupIssuesByProject ex_issues)
   \<and> formatGroupedIssues_weeports ex_service [10, 11] (groupIssuesByProject ex_issues)
     \<noteq> formatGroupedIssues_weeports ex_service [11, 10] (groupIssuesByProject ex_issues)
   \<and> formatClosedLastWeeksIssues ex_service ex_config 2 [10, 11]
     \<noteq> formatClosedLastWeeksIssues ex_service ex_config 2 [11, 10]
   \<and> formatClosedLastWeekIssues ex_service ex_config [10, 11]
     \<noteq> formatClosedLastWeekIssues ex_service ex_config [11, 10]"
  by code_simp


text \<open>
  C8, as amended: rendering is deterministic up to the order of the project blocks. Take
  two range orders of one grouping; each is a permutation of the other. If
  \<^verbatim>\<open>formatGroupedIssues\<close> succeeds under the first it succeeds under the second, and both
  texts are the concatenation of the same project blocks, each in its own visiting order;
  a block depends on the project, the names, the issues and their merge requests, not on
  the order. With at most one project the two results are equal. The section formatters
  likewise: when the grouping is that of the issues fetched, a section that succeeds
  under the first order succeeds under the second, and both are the same title, the same
  project blocks in the respective visiting order, and the closing empty line (or both
  are empty, when no issue was fetched).
\<close>

theorem formatGroupedIssues_same_blocks:
  assumes v: "range_order groupedIssues visit" and v': "range_order groupedIssues visit'"
  shows "mset visit' = mset visit
   \<and> (formatGroupedIssues up visit groupedIssues = Inr rendered
      \<longrightarrow> (\<exists>projectNameMap. fetchProjectNameMap up = Inr projectNameMap
           \<and> rendered = concat (map (projectBlock up projectNameMap groupedIssues) (filter (\<lambda>grp. map_index [] groupedIssues grp \<noteq> []) visit))
           \<and> formatGroupedIssues up visit' groupedIssues
               = Inr (concat (map (projectBlock up projectNameMap groupedIssues) (filter (\<lambda>grp. map_index [] groupedIssues grp \<noteq> []) visit')))))
   \<and> (formatGroupedIssues_weeports up visit groupedIssues = Inr rendered'
      \<longrightarrow> (\<exists>projectNameMap. fetchProjectNameMap up = Inr projectNameMap
           \<and> rendered' = concat (map (projectBlock_weeports projectNameMap groupedIssues) (filter (\<lambda>grp. map_index [] groupedIssues grp \<noteq> []) visit))
           \<and> formatGroupedIssues_weeports up visit' groupedIssues
               = Inr (concat (map (projectBlock_weeports projectNameMap groupedIssues) (filter (\<lambda>grp. map_index [] groupedIssues grp \<noteq> []) visit')))))
   \<and> (length groupedIssues \<le> 1
      \<longrightarrow> (formatGroupedIssues up visit' groupedIssues = formatGroupedIssues up visit groupedIssues
         \<and> formatGroupedIssues_weeports up visit' groupedIssues
           = formatGroupedIssues_weeports up visit groupedIssues))
   \<and> (groupedIssues = groupIssuesByProject issues
      \<longrightarrow> (fetchClosedLastWeeksIssues up config weeks = Inr issues
          \<and> formatClosedLastWeeksIssues up config weeks visit = Inr closedText
        \<longrightarrow> ((issues = [] \<and> closedText = [] \<and> formatClosedLastWeeksIssues up config weeks visit' = Inr [])
          \<or> (\<exists>projectNameMap. fetchProjectNameMap up = Inr projectNameMap
                \<and> closedText = ''### Issues closed ''
          @ (if weeks > 1 then ''in the last '' @ itoa weeks @ '' weeks'' else ''last week'')
          @ '':'' @ CRLF @ CRLF
                    @ concat (map (projectBlock up projectNameMap (groupIssuesByProject issues)) visit) @ CRLF
                \<and> formatClosedLastWeeksIssues up config weeks visit'
                    = Inr (''### Issues closed ''
          @ (if weeks > 1 then ''in the last '' @ itoa weeks @ '' weeks'' else ''last week'')
          @ '':'' @ CRLF @ CRLF
                           @ concat (map (projectBlock up projectNameMap (groupIssuesByProject issues)) visit') @ CRLF))))
      \<and> (fetchToCloseThisWeekIssues up config = Inr issues
          \<and> formatToCloseThisWeekIssues up config visit = Inr dueText
        \<longrightarrow> ((issues = [] \<and> dueText = [] \<and> formatToCloseThisWeekIssues up config visit' = Inr [])
          \<or> (\<exists>projectNameMap. fetchProjectNameMap up = Inr projectNameMap
                \<and> dueText = ''### Issues to close this week:'' @ CRLF @ CRLF
                    @ concat (map (projectBlock up projectNameMap (groupIssuesByProject issues)) visit) @ CRLF
                \<and> formatToCloseThisWeekIssues up config visit'
                    = Inr (''### Issues to close this week:'' @ CRLF @ CRLF
                           @ concat (map (projectBlock up projectNameMap (groupIssuesByProject issues)) visit') @ CRLF))))
      \<and> (fetchClosedLastWeekIssues up config = Inr issues
          \<and> formatClosedLastWeekIssues up config visit = Inr closedText'
        \<longrightarrow> ((issues = [] \<and> closedText' = [] \<and> formatClosedLastWeekIssues up config visit' = Inr [])
          \<or> (\<exists>projectNameMap. fetchProjectNameMap up = Inr projectNameMap
                \<and> closedText' = ''Issues closed last week:'' @ CRLF @ CRLF
                    @ concat (map (projectBlock_weeports projectNameMap (groupIssuesByProject issues)) visit) @ CRLF
                \<and> formatClosedLastWeekIssues up config visit'
                    = Inr (''Issues closed last week:'' @ CRLF @ CRLF
                           @ concat (map (projectBlock_weeports projectNameMap (groupIssuesByProject issues)) visit') @ CRLF))))
      \<and> (fetchToCloseThisWeekIssues_weeports up config = Inr issues
          \<and> formatToCloseThisWeekIssues_weeports up config visit = Inr dueText'
        \<longrightarrow> ((issues = [] \<and> dueText' = [] \<and> formatToCloseThisWeekIssues_weeports up config visit' = Inr [])
          \<or> (\<exists>projectNameMap. fetchProjectNameMap up = Inr projectNameMap
                \<and> dueText' = ''Issues to close this week:'' @ CRLF @ CRLF
                    @ concat (map (projectBlock_weeports projectNameMap (groupIssuesByProject issues)) visit) @ CRLF
                \<and> formatToCloseThisWeekIssues_weeports up config visit'
                    = Inr (''Issues to close this week:'' @ CRLF @ CRLF
                           @ concat (map (projectBlock_weeports projectNameMap (groupIssuesByProject issues)) visit') @ CRLF)))))"
proof (intro conjI impI)
  show "mset visit' = mset visit" using v' v by (rule range_order_mset)
  from v v' have sets: "set visit' = set visit" by (simp add: range_order_def)
  show "(\<exists>projectNameMap. fetchProjectNameMap up = Inr projectNameMap
           \<and> rendered = concat (map (projectBlock up projectNameMap groupedIssues) (filter (\<lambda>grp. map_index [] groupedIssues grp \<noteq> []) visit))
           \<and> formatGroupedIssues up visit' groupedIssues
               = Inr (concat (map (projectBlock up projectNameMap groupedIssues) (filter (\<lambda>grp. map_index [] groupedIssues grp \<noteq> []) visit'))))"
    if "formatGroupedIssues up visit groupedIssues = Inr rendered"
    using sets that by (rule formatGroupedIssues_text_permuted)
  show "(\<exists>projectNameMap. fetchProjectNameMap up = Inr projectNameMap
           \<and> rendered' = concat (map (projectBlock_weeports projectNameMap groupedIssues) (filter (\<lambda>grp. map_index [] groupedIssues grp \<noteq> []) visit))
           \<and> formatGroupedIssues_weeports up visit' groupedIssues
               = Inr (concat (map (projectBlock_weeports projectNameMap groupedIssues) (filter (\<lambda>grp. map_index [] groupedIssues grp \<noteq> []) visit'))))"
    if ok: "formatGroupedIssues_weeports up visit groupedIssues = Inr rendered'"
  proof -
    from formatGroupedIssues_weeports_text [of up visit groupedIssues] ok
    obtain projectNameMap where n: "fetchProjectNameMap up = Inr projectNameMap"
      and r: "rendered' = concat (map (projectBlock_weeports projectNameMap groupedIssues)
                (filter (\<lambda>grp. map_index [] groupedIssues grp \<noteq> []) visit))"
      by (auto split: sum.splits)
    from n have r': "formatGroupedIssues_weeports up visit' groupedIssues
        = Inr (concat (map (projectBlock_weeports projectNameMap groupedIssues)
                (filter (\<lambda>grp. map_index [] groupedIssues grp \<noteq> []) visit')))"
      by (simp add: formatGroupedIssues_weeports_text)
    show ?thesis
      by (rule exI [of _ projectNameMap], intro conjI, rule n, rule r, rule r')
  qed
  show "formatGroupedIssues up visit' groupedIssues = formatGroupedIssues up visit groupedIssues"
    if "length groupedIssues \<le> 1"
    using range_order_single [OF v v' that] by simp
  show "formatGroupedIssues_weeports up visit' groupedIssues
        = formatGroupedIssues_weeports up visit groupedIssues"
    if "length groupedIssues \<le> 1"
    using range_order_single [OF v v' that] by simp
  show "((issues = [] \<and> closedText = [] \<and> formatClosedLastWeeksIssues up config weeks visit' = Inr [])
          \<or> (\<exists>projectNameMap. fetchProjectNameMap up = Inr projectNameMap
                \<and> closedText = ''### Issues closed ''
          @ (if weeks > 1 then ''in the last '' @ itoa weeks @ '' weeks'' else ''last week'')
          @ '':'' @ CRLF @ CRLF
                    @ concat (map (projectBlock up projectNameMap (groupIssuesByProject issues)) visit) @ CRLF
                \<and> formatClosedLastWeeksIssues up config weeks visit'
                    = Inr (''### Issues closed ''
          @ (if weeks > 1 then ''in the last '' @ itoa weeks @ '' weeks'' else ''last week'')
          @ '':'' @ CRLF @ CRLF
                           @ concat (map (projectBlock up projectNameMap (groupIssuesByProject issues)) visit') @ CRLF)))"
    if g: "groupedIssues = groupIssuesByProject issues"
      and h: "fetchClosedLastWeeksIssues up config weeks = Inr issues
          \<and> formatClosedLastWeeksIssues up config weeks visit = Inr closedText"
    using h [THEN conjunct1] v [unfolded g] v' [unfolded g] h [THEN conjunct2]
    by (rule formatClosedLastWeeksIssues_text_permuted)
  show "((issues = [] \<and> dueText = [] \<and> formatToCloseThisWeekIssues up config visit' = Inr [])
          \<or> (\<exists>projectNameMap. fetchProjectNameMap up = Inr projectNameMap
                \<and> dueText = ''### Issues to close this week:'' @ CRLF @ CRLF
                    @ concat (map (projectBlock up projectNameMap (groupIssuesByProject issues)) visit) @ CRLF
                \<and> formatToCloseThisWeekIssues up config visit'
                    = Inr (''### Issues to close this week:'' @ CRLF @ CRLF
                           @ concat (map (projectBlock up projectNameMap (groupIssuesByProject issues)) visit') @ CRLF)))"
    if g: "groupedIssues = groupIssuesByProject issues"
      and h: "fetchToCloseThisWeekIssues up config = Inr issues
          \<and> formatToCloseThisWeekIssues up config visit = Inr dueText"
    using h [THEN conjunct1] v [unfolded g] v' [unfolded g] h [THEN conjunct2]
    by (rule formatToCloseThisWeekIssues_text_permuted)
  show "((issues = [] \<and> closedText' = [] \<and> formatClosedLastWeekIssues up config visit' = Inr [])
          \<or> (\<exists>projectNameMap. fetchProjectNameMap up = Inr projectNameMap
                \<and> closedText' = ''Issues closed last week:'' @ CRLF @ CRLF
                    @ concat (map (projectBlock_weeports projectNameMap (groupIssuesByProject issues)) visit) @ CRLF
                \<and> formatClosedLastWeekIssues up config visit'
                    = Inr (''Issues closed last week:'' @ CRLF @ CRLF
                           @ concat (map (projectBlock_weeports projectNameMap (groupIssuesByProject issues)) visit') @ CRLF)))"
    if g: "groupedIssues = groupIssuesByProject issues"
      and h: "fetchClosedLastWeekIssues up config = Inr issues
          \<and> formatClosedLastWeekIssues up config visit = Inr closedText'"
    using h [THEN conjunct1] v [unfolded g] v' [unfolded g] h [THEN conjunct2]
    by (rule formatClosedLastWeekIssues_text_permuted)
  show "((issues = [] \<and> dueText' = [] \<and> formatToCloseThisWeekIssues_weeports up config visit' = Inr [])
          \<or> (\<exists>projectNameMap. fetchProjectNameMap up = Inr projectNameMap
                \<and> dueText' = ''Issues to close this week:'' @ CRLF @ CRLF
                    @ concat (map (projectBlock_weeports projectNameMap (groupIssuesByProject issues)) visit) @ CRLF
                \<and> formatToCloseThisWeekIssues_weeports up config visit'
                    = Inr (''Issues to close this week:'' @ CRLF @ CRLF
                           @ concat (map (projectBlock_weeports projectNameMap (groupIssuesByProject issues)) visit') @ CRLF)))"
    if g: "groupedIssues = groupIssuesByProject issues"
      and h: "fetchToCloseThisWeekIssues_weeports up config = Inr issues
          \<and> formatToCloseThisWeekIssues_weeports up config visit = Inr dueText'"
    using h [THEN conjunct1] v [unfolded g] v' [unfolded g] h [THEN conjunct2]
    by (rule formatToCloseThisWeekIssues_weeports_text_permuted)
qed

theorem formatGroupedIssues_same_blocks_witness:
  "range_order (groupIssuesByProject ex_issues) [10, 11]
   \<and> range_order (groupIssuesByProject ex_issues) [11, 10]
   \<and> formatGroupedIssues ex_service [10, 11] (groupIssuesByProject ex_issues)
     = Inr (''#### weeports:'' @ CRLF
            @ ''  * [Fix 42](https://git.domain.com/issues/1)'' @ CRLF
            @ ''    * Merge request: [Draft: fix-42](https://git.domain.com/merge_requests/1)''
            @ CRLF
            @ ''#### :'' @ CRLF
            @ ''  * [Write docs](https://git.domain.com/issues/2)'' @ CRLF
            @ ''    * Due date: 2024-03-15'' @ CRLF)
   \<and> formatGroupedIssues_weeports ex_service [10, 11] (groupIssuesByProject ex_issues)
     = Inr (''* weeports:'' @ CRLF
            @ [TAB] @ ''* [Fix 42](https://git.domain.com/issues/1)'' @ CRLF
            @ ''* :'' @ CRLF
            @ [TAB] @ ''* [Write docs](https://git.domain.com/issues/2)'' @ CRLF
            @ [TAB, TAB] @ ''* Due date: 2024-03-15'' @ CRLF)
   \<and> formatGroupedIssues ex_service [11, 10] (groupIssuesByProject ex_issues)
     = Inr (''#### :'' @ CRLF
            @ ''  * [Write docs](https://git.domain.com/issues/2)'' @ CRLF
            @ ''    * Due date: 2024-03-15'' @ CRLF
            @ ''#### weeports:'' @ CRLF
            @ ''  * [Fix 42](https://git.domain.com/issues/1)'' @ CRLF
            @ ''    * Merge request: [Draft: fix-42](https://git.domain.com/merge_requests/1)''
            @ CRLF)
   \<and> fetchClosedLastWeeksIssues ex_service ex_config (2::int) = Inr ex_issues
   \<and> \<not> isl (formatClosedLastWeeksIssues ex_service ex_config (2::int) [10, 11])
   \<and> fetchToCloseThisWeekIssues ex_service ex_config = Inr ex_issues
   \<and> \<not> isl (formatToCloseThisWeekIssues ex_service ex_config [10, 11])
   \<and> fetchClosedLastWeekIssues ex_service ex_config = Inr ex_issues
   \<and> \<not> isl (formatClosedLastWeekIssues ex_service ex_config [10, 11])
   \<and> fetchToCloseThisWeekIssues_weeports ex_service ex_config = Inr ex_issues
   \<and> \<not> isl (formatToCloseThisWeekIssues_weeports ex_service ex_config [10, 11])
   \<and> range_order (groupIssuesByProject [ex_issue 1 10 0 ''Fix 42'']) [10]
   \<and> length (groupIssuesByProject [ex_issue 1 10 0 ''Fix 42'']) \<le> 1
   \<and> formatGroupedIssues ex_service [10] (groupIssuesByProject [ex_issue 1 10 0 ''Fix 42''])
     = Inr (''#### weeports:'' @ CRLF
            @ ''  * [Fix 42](https://git.domain.com/issues/1)'' @ CRLF
            @ ''    * Merge request: [Draft: fix-42](https://git.domain.com/merge_requests/1)''
            @ CRLF)
   \<and> mset [11, 10] = mset ([10, 11] :: int list)
   \<and> (\<exists>projectNameMap. fetchProjectNameMap ex_service = Inr projectNameMap
           \<and> (''#### weeports:'' @ CRLF
            @ ''  * [Fix 42](https://git.domain.com/issues/1)'' @ CRLF
            @ ''    * Merge request: [Draft: fix-42](https://git.domain.com/merge_requests/1)''
            @ CRLF
            @ ''#### :'' @ CRLF
            @ ''  * [Write docs](https://git.domain.com/issues/2)'' @ CRLF
            @ ''    * Due date: 2024-03-15'' @ CRLF) = concat (map (projectBlock ex_service projectNameMap (groupIssuesByProject ex_issues)) (filter (\<lambda>grp. map_index [] (groupIssuesByProject ex_issues) grp \<noteq> []) [10, 11]))
           \<and> formatGroupedIssues ex_service [11, 10] (groupIssuesByProject ex_issues)
               = Inr (concat (map (projectBlock ex_service projectNameMap (groupIssuesByProject ex_issues)) (filter (\<lambda>grp. map_index [] (groupIssuesByProject ex_issues) grp \<noteq> []) [11, 10]))))
   \<and> (\<exists>projectNameMap. fetchProjectNameMap ex_service = Inr projectNameMap
           \<and> (''* weeports:'' @ CRLF
            @ [TAB] @ ''* [Fix 42](https://git.domain.com/issues/1)'' @ CRLF
            @ ''* :'' @ CRLF
            @ [TAB] @ ''* [Write docs](https://git.domain.com/issues/2)'' @ CRLF
            @ [TAB, TAB] @ ''* Due date: 2024-03-15'' @ CRLF) = concat (map (projectBlock_weeports projectNameMap (groupIssuesByProject ex_issues)) (filter (\<lambda>grp. map_index [] (groupIssuesByProject ex_issues) grp \<noteq> []) [10, 11]))
           \<and> formatGroupedIssues_weeports ex_service [11, 10] (groupIssuesByProject ex_issues)
               = Inr (concat (map (projectBlock_weeports projectNameMap (groupIssuesByProject ex_issues)) (filter (\<lambda>grp. map_index [] (groupIssuesByProject ex_issues) grp \<noteq> []) [11, 10]))))
   \<and> ((ex_issues = [] \<and> (projr (formatClosedLastWeeksIssues ex_service ex_config (2::int) [10, 11])) = [] \<and> formatClosedLastWeeksIssues ex_service ex_config (2::int) [11, 10] = Inr [])
          \<or> (\<exists>projectNameMap. fetchProjectNameMap ex_service = Inr projectNameMap
                \<and> (projr (formatClosedLastWeeksIssues ex_service ex_config (2::int) [10, 11])) = ''### Issues closed ''
          @ (if (2::int) > 1 then ''in the last '' @ itoa 2 @ '' weeks'' else ''last week'')
          @ '':'' @ CRLF @ CRLF
                    @ concat (map (projectBlock ex_service projectNameMap (groupIssuesByProject ex_issues)) [10, 11]) @ CRLF
                \<and> formatClosedLastWeeksIssues ex_service ex_config (2::int) [11, 10]
                    = Inr (''### Issues closed ''
          @ (if (2::int) > 1 then ''in the last '' @ itoa 2 @ '' weeks'' else ''last week'')
          @ '':'' @ CRLF @ CRLF
                           @ concat (map (projectBlock ex_service projectNameMap (groupIssuesByProject ex_issues)) [11, 10]) @ CRLF)))
   \<and> ((ex_issues = [] \<and> (projr (formatToCloseThisWeekIssues ex_service ex_config [10, 11])) = [] \<and> formatToCloseThisWeekIssues ex_service ex_config [11, 10] = Inr [])
          \<or> (\<exists>projectNameMap. fetchProjectNameMap ex_service = Inr projectNameMap
                \<and> (projr (formatToCloseThisWeekIssues ex_service ex_config [10, 11])) = ''### Issues to close this week:'' @ CRLF @ CRLF
                    @ concat (map (projectBlock ex_service projectNameMap (groupIssuesByProject ex_issues)) [10, 11]) @ CRLF
                \<and> formatToCloseThisWeekIssues ex_service ex_config [11, 10]
                    = Inr (''### Issues to close this week:'' @ CRLF @ CRLF
                           @ concat (map (projectBlock ex_service projectNameMap (groupIssuesByProject ex_issues)) [11, 10]) @ CRLF)))
   \<and> ((ex_issues = [] \<and> (projr (formatClosedLastWeekIssues ex_service ex_config [10, 11])) = [] \<and> formatClosedLastWeekIssues ex_service ex_config [11, 10] = Inr [])
          \<or> (\<exists>projectNameMap. fetchProjectNameMap ex_service = Inr projectNameMap
                \<and> (projr (formatClosedLastWeekIssues ex_service ex_config [10, 11])) = ''Issues closed last week:'' @ CRLF @ CRLF
                    @ concat (map (projectBlock_weeports projectNameMap (groupIssuesByProject ex_issues)) [10, 11]) @ CRLF
                \<and> formatClosedLastWeekIssues ex_service ex_config [11, 10]
                    = Inr (''Issues closed last week:'' @ CRLF @ CRLF
                           @ concat (map (projectBlock_weeports projectNameMap (groupIssuesByProject ex_issues)) [11, 10]) @ CRLF)))
   \<and> ((ex_issues = [] \<and> (projr (formatToCloseThisWeekIssues_weeports ex_service ex_config [10, 11])) = [] \<and> formatToCloseThisWeekIssues_weeports ex_service ex_config [11, 10] = Inr [])
          \<or> (\<exists>projectNameMap. fetchProjectNameMap ex_service = Inr projectNameMap
                \<and> (projr (formatToCloseThisWeekIssues_weeports ex_service ex_config [10, 11])) = ''Issues to close this week:'' @ CRLF @ CRLF
                    @ concat (map (projectBlock_weeports projectNameMap (groupIssuesByProject ex_issues)) [10, 11]) @ CRLF
                \<and> formatToCloseThisWeekIssues_weeports ex_service ex_config [11, 10]
                    = Inr (''Issues to close this week:'' @ CRLF @ CRLF
                           @ concat (map (projectBlock_weeports projectNameMap (groupIssuesByProject ex_issues)) [11, 10]) @ CRLF)))
   \<and> (formatGroupedIssues ex_service [10] (groupIssuesByProject [ex_issue 1 10 0 ''Fix 42'']) = formatGroupedIssues ex_service [10] (groupIssuesByProject [ex_issue 1 10 0 ''Fix 42''])
         \<and> formatGroupedIssues_weeports ex_service [10] (groupIssuesByProject [ex_issue 1 10 0 ''Fix 42''])
           = formatGroupedIssues_weeports ex_service [10] (groupIssuesByProject [ex_issue 1 10 0 ''Fix 42'']))"
proof -
  have r1: "range_order (groupIssuesByProject ex_issues) [10, 11]"
    by code_simp
  have r2: "range_order (groupIssuesByProject ex_issues) [11, 10]"
    by code_simp
  have t: "formatGroupedIssues ex_service [10, 11] (groupIssuesByProject ex_issues)
     = Inr (''#### weeports:'' @ CRLF
            @ ''  * [Fix 42](https://git.domain.com/issues/1)'' @ CRLF
            @ ''    * Merge request: [Draft: fix-42](https://git.domain.com/merge_requests/1)''
            @ CRLF
            @ ''#### :'' @ CRLF
            @ ''  * [Write docs](https://git.domain.com/issues/2)'' @ CRLF
            @ ''    * Due date: 2024-03-15'' @ CRLF)"
    by code_simp
  have tw: "formatGroupedIssues_weeports ex_service [10, 11] (groupIssuesByProject ex_issues)
     = Inr (''* weeports:'' @ CRLF
            @ [TAB] @ ''* [Fix 42](https://git.domain.com/issues/1)'' @ CRLF
            @ ''* :'' @ CRLF
            @ [TAB] @ ''* [Write docs](https://git.domain.com/issues/2)'' @ CRLF
            @ [TAB, TAB] @ ''* Due date: 2024-03-15'' @ CRLF)"
    by code_simp
  have t2: "formatGroupedIssues ex_service [11, 10] (groupIssuesByProject ex_issues)
     = Inr (''#### :'' @ CRLF
            @ ''  * [Write docs](https://git.domain.com/issues/2)'' @ CRLF
            @ ''    * Due date: 2024-03-15'' @ CRLF
            @ ''#### weeports:'' @ CRLF
            @ ''  * [Fix 42](https://git.domain.com/issues/1)'' @ CRLF
            @ ''    * Merge request: [Draft: fix-42](https://git.domain.com/merge_requests/1)''
            @ CRLF)"
    by code_simp
  have f_cw: "fetchClosedLastWeeksIssues ex_service ex_config (2::int) = Inr ex_issues"
    by code_simp
  have ok_cw: "\<not> isl (formatClosedLastWeeksIssues ex_service ex_config (2::int) [10, 11])"
    by code_simp
  have f_dw: "fetchToCloseThisWeekIssues ex_service ex_config = Inr ex_issues"
    by code_simp
  have ok_dw: "\<not> isl (formatToCloseThisWeekIssues ex_service ex_config [10, 11])"
    by code_simp
  have f_c0: "fetchClosedLastWeekIssues ex_service ex_config = Inr ex_issues"
    by code_simp
  have ok_c0: "\<not> isl (formatClosedLastWeekIssues ex_service ex_config [10, 11])"
    by code_simp
  have f_d0: "fetchToCloseThisWeekIssues_weeports ex_service ex_config = Inr ex_issues"
    by code_simp
  have ok_d0: "\<not> isl (formatToCloseThisWeekIssues_weeports ex_service ex_config [10, 11])"
    by code_simp
  have r3: "range_order (groupIssuesByProject [ex_issue 1 10 0 ''Fix 42'']) [10]"
    by code_simp
  have l: "length (groupIssuesByProject [ex_issue 1 10 0 ''Fix 42'']) \<le> 1"
    by code_simp
  have t3: "formatGroupedIssues ex_service [10] (groupIssuesByProject [ex_issue 1 10 0 ''Fix 42''])
     = Inr (''#### weeports:'' @ CRLF
            @ ''  * [Fix 42](https://git.domain.com/issues/1)'' @ CRLF
            @ ''    * Merge request: [Draft: fix-42](https://git.domain.com/merge_requests/1)''
            @ CRLF)"
    by code_simp
  from ok_cw have ok'_cw: "formatClosedLastWeeksIssues ex_service ex_config (2::int) [10, 11]
      = Inr (projr (formatClosedLastWeeksIssues ex_service ex_config (2::int) [10, 11]))"
    by (cases "formatClosedLastWeeksIssues ex_service ex_config (2::int) [10, 11]") simp_all
  from ok_dw have ok'_dw: "formatToCloseThisWeekIssues ex_service ex_config [10, 11]
      = Inr (projr (formatToCloseThisWeekIssues ex_service ex_config [10, 11]))"
    by (cases "formatToCloseThisWeekIssues ex_service ex_config [10, 11]") simp_all
  from ok_c0 have ok'_c0: "formatClosedLastWeekIssues ex_service ex_config [10, 11]
      = Inr (projr (formatClosedLastWeekIssues ex_service ex_config [10, 11]))"
    by (cases "formatClosedLastWeekIssues ex_service ex_config [10, 11]") simp_all
  from ok_d0 have ok'_d0: "formatToCloseThisWeekIssues_weeports ex_service ex_config [10, 11]
      = Inr (projr (formatToCloseThisWeekIssues_weeports ex_service ex_config [10, 11]))"
    by (cases "formatToCloseThisWeekIssues_weeports ex_service ex_config [10, 11]") simp_all
  note inst = formatGroupedIssues_same_blocks
    [OF r1 r2, where up = ex_service and config = ex_config and weeks = 2
       and issues = ex_issues
       and rendered = "''#### weeports:'' @ CRLF
            @ ''  * [Fix 42](https://git.domain.com/issues/1)'' @ CRLF
            @ ''    * Merge request: [Draft: fix-42](https://git.domain.com/merge_requests/1)''
            @ CRLF
            @ ''#### :'' @ CRLF
            @ ''  * [Write docs](https://git.domain.com/issues/2)'' @ CRLF
            @ ''    * Due date: 2024-03-15'' @ CRLF"
       and rendered' = "''* weeports:'' @ CRLF
            @ [TAB] @ ''* [Fix 42](https://git.domain.com/issues/1)'' @ CRLF
            @ ''* :'' @ CRLF
            @ [TAB] @ ''* [Write docs](https://git.domain.com/issues/2)'' @ CRLF
            @ [TAB, TAB] @ ''* Due date: 2024-03-15'' @ CRLF"
       and closedText = "projr (formatClosedLastWeeksIssues ex_service ex_config (2::int) [10, 11])"
       and dueText = "projr (formatToCloseThisWeekIssues ex_service ex_config [10, 11])"
       and closedText' = "projr (formatClosedLastWeekIssues ex_service ex_config [10, 11])"
       and dueText' = "projr (formatToCloseThisWeekIssues_weeports ex_service ex_config [10, 11])"]
  note c1 = inst [THEN conjunct1]
    and c2 = inst [THEN conjunct2, THEN conjunct1, THEN mp, OF t]
    and c3 = inst [THEN conjunct2, THEN conjunct2, THEN conjunct1, THEN mp, OF tw]
    and secs = inst [THEN conjunct2, THEN conjunct2, THEN conjunct2, THEN conjunct2,
                     THEN mp, OF refl]
  note s_cw = secs [THEN conjunct1, THEN mp, OF conjI [OF f_cw ok'_cw]]
    and s_dw = secs [THEN conjunct2, THEN conjunct1, THEN mp, OF conjI [OF f_dw ok'_dw]]
    and s_c0 = secs [THEN conjunct2, THEN conjunct2, THEN conjunct1, THEN mp,
                     OF conjI [OF f_c0 ok'_c0]]
    and s_d0 = secs [THEN conjunct2, THEN conjunct2, THEN conjunct2, THEN mp,
                     OF conjI [OF f_d0 ok'_d0]]
  note c4 = formatGroupedIssues_same_blocks
    [OF r3 r3, where up = ex_service, THEN conjunct2, THEN conjunct2, THEN conjunct2,
     THEN conjunct1, THEN mp, OF l]
  show ?thesis
    by (intro conjI)
       (rule r1 r2 t tw t2 f_cw ok_cw f_dw ok_dw f_c0 ok_c0 f_d0 ok_d0 r3 l t3 c1 c2 c3 s_cw s_dw s_c0 s_d0 c4 [THEN conjunct1]
          c4 [THEN conjunct2])+
qed

subsection \<open>The subject of the mail\<close>

lemma length_utoa:
  "u < 10 ^ k \<Longrightarrow> 1 \<le> k \<Longrightarrow> length (utoa u) \<le> k"
proof (induction u arbitrary: k rule: utoa.induct)
  case (1 u)
  show ?case
  proof (cases "u < 10")
    case True
    with "1.prems" show ?thesis by (subst utoa.simps) simp
  next
    case False
    with "1.prems" obtain j where k: "k = Suc j" by (cases k) auto
    from False "1.prems" k have j: "1 \<le> j" by (cases j) auto
    from "1.prems" k have "u div 10 < 10 ^ j"
      by (simp add: less_mult_imp_div_less mult.commute)
    with "1.IH" [OF False _ j] have "length (utoa (u div 10)) \<le> j" by simp
    with False k show ?thesis by (subst utoa.simps) simp
  qed
qed

lemma length_appendInt:
  assumes "0 \<le> x" and "x < 10 ^ w" and "1 \<le> w"
  shows "length (appendInt x w) = w"
proof -
  from assms have "nat \<bar>x\<bar> < 10 ^ w"
    by (simp add: nat_less_iff)
  then have "length (utoa (nat \<bar>x\<bar>)) \<le> w" using assms(3) by (rule length_utoa)
  with assms(1) show ?thesis by (simp add: appendInt_def Let_def)
qed

text \<open>What the two layouts of the program produce.\<close>

lemma Format_year_month_day:
  "Format t ''2006-01-02'' = appendInt (Year t) 4 @ ''-'' @ appendInt (int (Month t)) 2
     @ ''-'' @ appendInt (int (Day t)) 2"
  using ISOTime_String_eq [of t] by (simp add: ISOTime_String_def)

lemma Format_year_month_month:
  "Format t ''2006-01-01'' = appendInt (Year t) 4 @ ''-'' @ appendInt (int (Month t)) 2
     @ ''-'' @ appendInt (int (Month t)) 2"
  by (simp add: Format.simps)

text \<open>
  In \<^verbatim>\<open>src/unnamed/part_001\<close> the subject holds the year in four digits, the month in
  two and the day of the month in two, for every date of the calendar from year 0 to
  year 9999.
\<close>

lemma sendEmail_subject_date:
  assumes "0 \<le> Year nowTime" and "Year nowTime < 10000"
    and "Month nowTime \<le> 12" and "Day nowTime \<le> 31"
    and "sendEmail config nowTime sendMailErr msgBody = Inr message"
  shows "sublist (''Subject: Weekly report ('' @ appendInt (Year nowTime) 4 @ ''-''
           @ appendInt (int (Month nowTime)) 2 @ ''-'' @ appendInt (int (Day nowTime)) 2
           @ '')'') message
         \<and> length (appendInt (Year nowTime) 4) = 4
         \<and> length (appendInt (int (Month nowTime)) 2) = 2
         \<and> length (appendInt (int (Day nowTime)) 2) = 2"
proof (intro conjI)
  let ?subject = "''Subject: Weekly report ('' @ appendInt (Year nowTime) 4 @ ''-''
           @ appendInt (int (Month nowTime)) 2 @ ''-'' @ appendInt (int (Day nowTime)) 2
           @ '')''"
  from assms(5) have "message = (''To: '' @ RecipientEmail config @ CRLF) @ ?subject
      @ (CRLF @ CRLF @ msgBody @ CRLF)"
    by (auto simp: sendEmail_def Let_def Format_year_month_day split: if_splits)
  then show "sublist ?subject message" unfolding sublist_def by blast
  from assms(1,2) show "length (appendInt (Year nowTime) 4) = 4"
    by (intro length_appendInt) simp_all
  from assms(3) show "length (appendInt (int (Month nowTime)) 2) = 2"
    by (intro length_appendInt) simp_all
  from assms(4) show "length (appendInt (int (Day nowTime)) 2) = 2"
    by (intro length_appendInt) simp_all
qed

text \<open>In \<^verbatim>\<open>src/weeports.go\<close> the month stands where the day should.\<close>

lemma sendEmail_weeports_subject:
  assumes "sendEmail_weeports config nowTime sendMailErr msgBody = Inr message"
  shows "message = ''To: '' @ RecipientEmail config @ CRLF
           @ ''Subject: Weekly report ('' @ appendInt (Year nowTime) 4 @ ''-''
           @ appendInt (int (Month nowTime)) 2 @ ''-'' @ appendInt (int (Month nowTime)) 2
           @ '')'' @ CRLF @ CRLF @ msgBody @ CRLF"
  using assms
  by (auto simp: sendEmail_weeports_def Let_def Format_year_month_month split: if_splits)

text \<open>
  C9: the subject is meant to hold the date of the run as year, month and day of the
  month. In \<^verbatim>\<open>src/weeports.go\<close> the layout names the month twice: a run on 15 March 2024
  sends the subject \<open>Weekly report (2024-03-03)\<close>, and the day of the run is nowhere in
  the message. The snapshot of \<^verbatim>\<open>src/unnamed/part_001\<close> sends \<open>2024-03-15\<close>.
\<close>

theorem sendEmail_weeports_subject_repeats_month:
  "sendEmail_weeports ex_config \<lparr>Year = 2024, Month = 3, Day = 15\<rparr> False ''report''
     = Inr (''To: manager@domain.com'' @ CRLF
            @ ''Subject: Weekly report (2024-03-03)'' @ CRLF @ CRLF @ ''report'' @ CRLF)
   \<and> \<not> sublist ''2024-03-15''
         (''To: manager@domain.com'' @ CRLF
            @ ''Subject: Weekly report (2024-03-03)'' @ CRLF @ CRLF @ ''report'' @ CRLF)
   \<and> sendEmail ex_config \<lparr>Year = 2024, Month = 3, Day = 15\<rparr> False ''report''
     = Inr (''To: manager@domain.com'' @ CRLF
            @ ''Subject: Weekly report (2024-03-15)'' @ CRLF @ CRLF @ ''report'' @ CRLF)"
  by code_simp

end
